theory Spec2Isabelle
  imports Complex_Main "HOL-Library.Multiset"
begin

section \<open>Data model (types.ts)\<close>

text \<open>
  A cell is a string, a number, a boolean, a Date object, null or undefined.
  JavaScript numbers are IEEE doubles and Dates are heap objects; neither is given a
  concrete representation here. The type variable \<open>'n\<close> stands for number values
  (up to the SameValueZero comparison a JavaScript \<open>Set\<close> uses) and \<open>'d\<close> for Date
  objects compared by reference. What \<open>String(v)\<close> returns for them is a parameter of
  the functions that need it.
\<close>

datatype ('n, 'd) CellValue =
    VString string
  | VNumber 'n
  | VBoolean bool
  | VDate 'd
  | VNull
  | VUndefined

text \<open>
  A row object is a list of properties in insertion order, with distinct keys.
  (Keys that look like array indices, which JavaScript enumerates first, are not
  treated specially.)
\<close>

type_synonym ('n, 'd) DataRow = "(string \<times> ('n, 'd) CellValue) list"

datatype ColumnType = STRING | NUMBER | DATE | BOOLEAN | UNKNOWN

text \<open>
  The optional statistics \<open>min\<close>, \<open>max\<close>, \<open>mean\<close>, \<open>sum\<close> and
  \<open>outliers\<close> of a column profile are floating-point values (or dates). The join
  engine and the join suggester never read them and no property below is about them;
  they are left out of the record.
\<close>

record ('n, 'd) ColumnProfile =
  name :: string
  type :: ColumnType
  nullCount :: nat
  uniqueCount :: nat
  exampleValues :: "('n, 'd) CellValue list"

record ('n, 'd) DataSet =
  fileName :: string
  rows :: "('n, 'd) DataRow list"
  columns :: "('n, 'd) ColumnProfile list"
  rowCount :: nat
  primaryDateColumn :: "string option"
  primaryMeasureColumn :: "string option"
  dimensions :: "string list"

record ('n, 'd) Table = "('n, 'd) DataSet" +
  id_table :: string
  tableName :: string

text \<open>
  \<open>TableCollection = Record<string, Table>\<close>: the own properties of the object in
  the order in which \<open>Object.values\<close> enumerates them (keys that are array indices in
  ascending order, then the other keys in insertion order), with distinct keys.
  \<open>Object.values(tables)\<close> is \<open>map snd tables\<close>; \<open>tables[id]\<close> is
  \<open>getProp tables id\<close> below.
\<close>

type_synonym ('n, 'd) TableCollection = "(string \<times> ('n, 'd) Table) list"

datatype JoinType = LEFT | INNER

record JoinConfig =
  id_join :: string
  rightTableId :: string
  leftColumn :: string
  rightColumn :: string
  joinType :: JoinType

record DataModel =
  baseTableId :: string
  joins :: "JoinConfig list"

datatype error = Error string | TypeError

section \<open>JavaScript primitives used by the services\<close>

text \<open>
  \<open>obj[key]\<close> on a plain object, as the services index the table collection. The
  collection is created as \<open>{}\<close>, so a key that is not an own property is looked up
  in \<open>Object.prototype\<close>: for the twelve names below the read returns a member of
  the prototype (a function, or for \<open>__proto__\<close> the prototype itself), which is
  truthy and has no \<open>rows\<close> and no \<open>columns\<close>; for every other key it returns
  undefined.
\<close>

datatype 'a lookup = Own 'a | Inherited | Absent

definition objectPrototypeKeys :: "string list" where
  "objectPrototypeKeys =
     [''constructor'', ''__defineGetter__'', ''__defineSetter__'', ''hasOwnProperty'',
      ''__lookupGetter__'', ''__lookupSetter__'', ''isPrototypeOf'', ''propertyIsEnumerable'',
      ''toString'', ''valueOf'', ''__proto__'', ''toLocaleString'']"

definition getProp :: "(string \<times> 'a) list \<Rightarrow> string \<Rightarrow> 'a lookup" where
  "getProp obj k =
     (case map_of obj k of
        Some v \<Rightarrow> Own v
      | None \<Rightarrow> if k \<in> set objectPrototypeKeys then Inherited else Absent)"

text \<open>
  \<open>row[key]\<close> on a row object: a missing property reads as undefined. (Rows are
  indexed by column names; a column name that is a member name of \<open>Object.prototype\<close>
  and missing from a row is outside this model of rows.)
\<close>

definition getv :: "('n, 'd) DataRow \<Rightarrow> string \<Rightarrow> ('n, 'd) CellValue" where
  "getv row k = (case map_of row k of None \<Rightarrow> VUndefined | Some v \<Rightarrow> v)"

text \<open>\<open>row[key] = v\<close>: overwrite in place, or append a new property.\<close>

fun setv :: "string \<Rightarrow> ('n, 'd) CellValue \<Rightarrow> ('n, 'd) DataRow \<Rightarrow> ('n, 'd) DataRow" where
  "setv k v [] = [(k, v)]"
| "setv k v (p # ps) = (if fst p = k then (k, v) # ps else p # setv k v ps)"

text \<open>\<open>String(v)\<close>, with the rendering of numbers and of dates as parameters.\<close>

fun String_js :: "('n \<Rightarrow> string) \<Rightarrow> ('d \<Rightarrow> string) \<Rightarrow> ('n, 'd) CellValue \<Rightarrow> string" where
  "String_js ns ds (VString s) = s"
| "String_js ns ds (VNumber n) = ns n"
| "String_js ns ds (VBoolean b) = (if b then ''true'' else ''false'')"
| "String_js ns ds (VDate d) = ds d"
| "String_js ns ds VNull = ''null''"
| "String_js ns ds VUndefined = ''undefined''"

text \<open>Decimal rendering of an array length inside a template literal.\<close>

definition digit_char :: "nat \<Rightarrow> char" where
  "digit_char n = ''0123456789'' ! n"

function show_nat :: "nat \<Rightarrow> string" where
  "show_nat n = (if n < 10 then [digit_char n] else show_nat (n div 10) @ [digit_char (n mod 10)])"
  by pat_completeness auto
termination
  by (relation "measure (\<lambda>n. n)") auto

section \<open>The join engine (services/joinEngine.ts)\<close>

text \<open>
  \<open>rightTable.rows.forEach(row => rightMap.set(String(row[join.rightColumn]), row))\<close>:
  a later row with the same key replaces the earlier one.
\<close>

definition buildRightMap ::
  "('n \<Rightarrow> string) \<Rightarrow> ('d \<Rightarrow> string) \<Rightarrow> string \<Rightarrow> ('n, 'd) DataRow list
     \<Rightarrow> (string \<rightharpoonup> ('n, 'd) DataRow)" where
  "buildRightMap ns ds rcol rrows =
     fold (\<lambda>row m. m(String_js ns ds (getv row rcol) \<mapsto> row)) rrows Map.empty"

text \<open>The renamed column: \<open>`${rightPrefix}.${col.name}`\<close>.\<close>

definition prefixed :: "string \<Rightarrow> string \<Rightarrow> string" where
  "prefixed rightPrefix n = rightPrefix @ ''.'' @ n"

definition rightColsRenamed ::
  "('n, 'd) Table \<Rightarrow> ('n, 'd) ColumnProfile list" where
  "rightColsRenamed rightTable =
     map (\<lambda>col. col\<lparr>name := prefixed (tableName rightTable) (name col)\<rparr>) (columns rightTable)"

text \<open>A copy of the left row with every right column merged in under its prefixed name.\<close>

definition mergeMatch ::
  "('n, 'd) Table \<Rightarrow> ('n, 'd) DataRow \<Rightarrow> ('n, 'd) DataRow \<Rightarrow> ('n, 'd) DataRow" where
  "mergeMatch rightTable rightRow leftRow =
     fold (\<lambda>col mergedRow.
             setv (prefixed (tableName rightTable) (name col)) (getv rightRow (name col)) mergedRow)
          (columns rightTable) leftRow"

text \<open>A copy of the left row with every right column set to null.\<close>

definition mergeNulls :: "('n, 'd) Table \<Rightarrow> ('n, 'd) DataRow \<Rightarrow> ('n, 'd) DataRow" where
  "mergeNulls rightTable leftRow =
     fold (\<lambda>col mergedRow. setv (prefixed (tableName rightTable) (name col)) VNull mergedRow)
          (columns rightTable) leftRow"

text \<open>The loop over the accumulated rows; \<open>newRows.push\<close> keeps their order.\<close>

fun joinRows ::
  "('n \<Rightarrow> string) \<Rightarrow> ('d \<Rightarrow> string) \<Rightarrow> JoinConfig \<Rightarrow> ('n, 'd) Table
     \<Rightarrow> (string \<rightharpoonup> ('n, 'd) DataRow) \<Rightarrow> ('n, 'd) DataRow list \<Rightarrow> ('n, 'd) DataRow list" where
  "joinRows ns ds join rightTable rightMap [] = []"
| "joinRows ns ds join rightTable rightMap (leftRow # rest) =
     (case rightMap (String_js ns ds (getv leftRow (leftColumn join))) of
        Some rightRow \<Rightarrow>
          mergeMatch rightTable rightRow leftRow # joinRows ns ds join rightTable rightMap rest
      | None \<Rightarrow>
          (if joinType join = LEFT
           then mergeNulls rightTable leftRow # joinRows ns ds join rightTable rightMap rest
           else joinRows ns ds join rightTable rightMap rest))"

text \<open>The three variables the loop over \<open>model.joins\<close> updates.\<close>

record ('n, 'd) JoinAcc =
  resultRows :: "('n, 'd) DataRow list"
  resultColumns :: "('n, 'd) ColumnProfile list"
  currentDimensions :: "string list"

text \<open>The body of one iteration of the loop over \<open>model.joins\<close>, for a right table.\<close>

definition joinWith ::
  "('n \<Rightarrow> string) \<Rightarrow> ('d \<Rightarrow> string) \<Rightarrow> JoinConfig \<Rightarrow> ('n, 'd) Table
     \<Rightarrow> ('n, 'd) JoinAcc \<Rightarrow> ('n, 'd) JoinAcc" where
  "joinWith ns ds join rightTable acc =
     (let rightMap = buildRightMap ns ds (rightColumn join) (rows rightTable);
          newRows = joinRows ns ds join rightTable rightMap (resultRows acc);
          newDims = map (prefixed (tableName rightTable)) (dimensions rightTable)
      in \<lparr>resultRows = newRows,
          resultColumns = resultColumns acc @ rightColsRenamed rightTable,
          currentDimensions = currentDimensions acc @ newDims\<rparr>)"

text \<open>
  One iteration. \<open>if (!rightTable) continue\<close> skips the join when the lookup gives
  undefined. A member of \<open>Object.prototype\<close> passes this test, and
  \<open>rightTable.rows.forEach\<close> then throws a TypeError, \<open>rows\<close> being undefined.
\<close>

definition joinStep ::
  "('n \<Rightarrow> string) \<Rightarrow> ('d \<Rightarrow> string) \<Rightarrow> ('n, 'd) TableCollection \<Rightarrow> JoinConfig
     \<Rightarrow> ('n, 'd) JoinAcc \<Rightarrow> error + ('n, 'd) JoinAcc" where
  "joinStep ns ds tables join acc =
     (case getProp tables (rightTableId join) of
        Absent \<Rightarrow> Inr acc
      | Inherited \<Rightarrow> Inl TypeError
      | Own rightTable \<Rightarrow> Inr (joinWith ns ds join rightTable acc))"

text \<open>The loop over \<open>model.joins\<close>: an exception ends it.\<close>

fun joinLoop ::
  "('n \<Rightarrow> string) \<Rightarrow> ('d \<Rightarrow> string) \<Rightarrow> ('n, 'd) TableCollection \<Rightarrow> JoinConfig list
     \<Rightarrow> ('n, 'd) JoinAcc \<Rightarrow> error + ('n, 'd) JoinAcc" where
  "joinLoop ns ds tables [] acc = Inr acc"
| "joinLoop ns ds tables (join # rest) acc =
     (case joinStep ns ds tables join acc of
        Inl e \<Rightarrow> Inl e
      | Inr acc' \<Rightarrow> joinLoop ns ds tables rest acc')"

text \<open>
  \<open>if (!baseTable) throw new Error("Base table not found")\<close> catches a lookup that
  gives undefined. A member of \<open>Object.prototype\<close> passes this test, and
  \<open>baseTable.rows.map\<close> then throws a TypeError.
\<close>

definition executeDataModel ::
  "('n \<Rightarrow> string) \<Rightarrow> ('d \<Rightarrow> string) \<Rightarrow> ('n, 'd) TableCollection \<Rightarrow> DataModel
     \<Rightarrow> error + ('n, 'd) DataSet" where
  "executeDataModel ns ds tables model =
     (case getProp tables (baseTableId model) of
        Absent \<Rightarrow> Inl (Error ''Base table not found'')
      | Inherited \<Rightarrow> Inl TypeError
      | Own baseTable \<Rightarrow>
          (case joinLoop ns ds tables (joins model)
                  \<lparr>resultRows = rows baseTable,
                   resultColumns = columns baseTable,
                   currentDimensions = dimensions baseTable\<rparr> of
             Inl e \<Rightarrow> Inl e
           | Inr acc \<Rightarrow>
               Inr \<lparr>fileName = ''Model: '' @ tableName baseTable @ '' + ''
                                   @ show_nat (length (joins model)) @ '' joins'',
                    rows = resultRows acc,
                    columns = resultColumns acc,
                    rowCount = length (resultRows acc),
                    primaryDateColumn = primaryDateColumn baseTable,
                    primaryMeasureColumn = primaryMeasureColumn baseTable,
                    dimensions = currentDimensions acc\<rparr>))"

declare show_nat.simps [simp del]

text \<open>Vocabulary for stating the properties of the join engine.\<close>

text \<open>The key a join computes for a row of the accumulator and for a row of the right table.\<close>

definition joinKeyL ::
  "('n \<Rightarrow> string) \<Rightarrow> ('d \<Rightarrow> string) \<Rightarrow> JoinConfig \<Rightarrow> ('n, 'd) DataRow \<Rightarrow> string" where
  "joinKeyL ns ds j l = String_js ns ds (getv l (leftColumn j))"

definition joinKeyR ::
  "('n \<Rightarrow> string) \<Rightarrow> ('d \<Rightarrow> string) \<Rightarrow> JoinConfig \<Rightarrow> ('n, 'd) DataRow \<Rightarrow> string" where
  "joinKeyR ns ds j r = String_js ns ds (getv r (rightColumn j))"

text \<open>The rows of the right table with a given key, in the table's row order.\<close>

definition matching ::
  "('n \<Rightarrow> string) \<Rightarrow> ('d \<Rightarrow> string) \<Rightarrow> JoinConfig \<Rightarrow> ('n, 'd) Table \<Rightarrow> string
     \<Rightarrow> ('n, 'd) DataRow list" where
  "matching ns ds j rt k = filter (\<lambda>r. joinKeyR ns ds j r = k) (rows rt)"

definition columnNames :: "('n, 'd) DataSet \<Rightarrow> string list" where
  "columnNames out = map name (columns out)"

text \<open>The right tables a model brings in: those of its joins that exist, in join order.\<close>

definition ownTable :: "('n, 'd) TableCollection \<Rightarrow> string \<Rightarrow> ('n, 'd) Table option" where
  "ownTable tables k = (case getProp tables k of Own t \<Rightarrow> Some t | Inherited \<Rightarrow> None | Absent \<Rightarrow> None)"

definition joinedTables ::
  "('n, 'd) TableCollection \<Rightarrow> DataModel \<Rightarrow> ('n, 'd) Table list" where
  "joinedTables tables model =
     List.map_filter (\<lambda>j. ownTable tables (rightTableId j)) (joins model)"

text \<open>The file name of a result for a base table and a number of configured joins.\<close>

definition modelFileName :: "('n, 'd) Table \<Rightarrow> nat \<Rightarrow> string" where
  "modelFileName baseTable n =
     ''Model: '' @ tableName baseTable @ '' + '' @ show_nat n @ '' joins''"

section \<open>Column profiling and sheet analysis (services/dataProcessor.ts)\<close>

text \<open>
  The thresholds of the source are double-precision comparisons such as
  \<open>count > values.length * 0.8\<close> and \<open>uniqueCount / rowCount > 0.9\<close>, between
  integers below \<open>2^32\<close>. They are modelled over the reals, and on these inputs the
  two agree. The double nearest to \<open>0.8\<close> exceeds it by the relative error
  \<open>2^-54\<close>, so the exact product of \<open>n\<close> and that double is less than half a unit
  in the last place away from \<open>4n/5\<close>: when \<open>4n/5\<close> is an integer the rounded
  product is that integer, and otherwise \<open>4n/5\<close> is at least \<open>1/5\<close> away from every
  integer, far more than the error. The same holds for \<open>0.9\<close>, and for the quotient,
  which is rounded correctly and is at least \<open>2^-36\<close> away from \<open>9/10\<close> unless it
  equals it.
\<close>

text \<open>\<open>val === null || val === undefined || val === ''\<close>\<close>

definition isAbsent :: "('n, 'd) CellValue \<Rightarrow> bool" where
  "isAbsent v = (v = VNull \<or> v = VUndefined \<or> v = VString [])"

text \<open>
  The type a present value counts for. \<open>isNumeric s\<close> stands for
  \<open>!isNaN(Number(s))\<close> and \<open>isDateString s\<close> for \<open>!isNaN(Date.parse(s))\<close>. The
  last two cases are what the chain of tests would give for null and undefined; the loop
  never reaches them, because it counts these values as nulls first.
\<close>

fun classify ::
  "(string \<Rightarrow> bool) \<Rightarrow> (string \<Rightarrow> bool) \<Rightarrow> ('n, 'd) CellValue \<Rightarrow> ColumnType" where
  "classify isNumeric isDateString (VDate d) = DATE"
| "classify isNumeric isDateString (VNumber n) = NUMBER"
| "classify isNumeric isDateString (VBoolean b) = BOOLEAN"
| "classify isNumeric isDateString (VString s) =
     (if isNumeric s \<and> s \<noteq> [] then NUMBER
      else if isDateString s \<and> length s > 5 then DATE
      else STRING)"
| "classify isNumeric isDateString VNull = NUMBER"
| "classify isNumeric isDateString VUndefined = STRING"

text \<open>
  \<open>distinct.add(val)\<close> on a \<open>Set\<close>, which keeps insertion order. Equality on
  \<open>CellValue\<close> is the comparison the \<open>Set\<close> makes: by value on strings, numbers and
  booleans, by reference on Date objects.
\<close>

definition setAdd :: "'a list \<Rightarrow> 'a \<Rightarrow> 'a list" where
  "setAdd s v = (if v \<in> set s then s else s @ [v])"

text \<open>The variables of the loop over the rows in \<open>analyzeColumn\<close>.\<close>

record ('n, 'd) ProfileState =
  nulls :: nat
  vals :: "('n, 'd) CellValue list"
  distinctSet :: "('n, 'd) CellValue list"
  typeCounts :: "ColumnType \<Rightarrow> nat"

definition profileInit :: "('n, 'd) ProfileState" where
  "profileInit = \<lparr>nulls = 0, vals = [], distinctSet = [], typeCounts = (\<lambda>t. 0)\<rparr>"

definition profileStep ::
  "(string \<Rightarrow> bool) \<Rightarrow> (string \<Rightarrow> bool) \<Rightarrow> string \<Rightarrow> ('n, 'd) DataRow
     \<Rightarrow> ('n, 'd) ProfileState \<Rightarrow> ('n, 'd) ProfileState" where
  "profileStep isNumeric isDateString key row st =
     (let val = getv row key in
      if isAbsent val then st\<lparr>nulls := nulls st + 1\<rparr>
      else st\<lparr>vals := vals st @ [val],
              distinctSet := setAdd (distinctSet st) val,
              typeCounts := (typeCounts st)
                (classify isNumeric isDateString val :=
                   typeCounts st (classify isNumeric isDateString val) + 1)\<rparr>)"

definition decideType :: "(ColumnType \<Rightarrow> nat) \<Rightarrow> nat \<Rightarrow> ColumnType" where
  "decideType counts n =
     (if real (counts DATE) > real n * 0.8 then DATE
      else if real (counts NUMBER) > real n * 0.8 then NUMBER
      else if real (counts BOOLEAN) > real n * 0.9 then BOOLEAN
      else STRING)"

text \<open>
  The profile of one column. The statistics the source computes after the type decision
  (\<open>min\<close>, \<open>max\<close>, \<open>sum\<close>, \<open>mean\<close>) are left out with their fields.
\<close>

definition analyzeColumn ::
  "(string \<Rightarrow> bool) \<Rightarrow> (string \<Rightarrow> bool) \<Rightarrow> string \<Rightarrow> ('n, 'd) DataRow list
     \<Rightarrow> ('n, 'd) ColumnProfile" where
  "analyzeColumn isNumeric isDateString key rws =
     (let st = fold (profileStep isNumeric isDateString key) rws profileInit
      in \<lparr>name = key,
          type = decideType (typeCounts st) (length (vals st)),
          nullCount = nulls st,
          uniqueCount = length (distinctSet st),
          exampleValues = take 5 (distinctSet st)\<rparr>)"

text \<open>
  The score that ranks the number columns is
  \<open>uniqueCount * (1 - nullCount / rawRows.length)\<close>, which the code computes in double
  precision. \<open>analyzeSheetData\<close> takes the computed score as its parameter \<open>fscore\<close>
  (the row count and the profile to the double, which is a real number); \<open>score\<close> is
  the exact value of the expression, which the examples pass for it. The comparator
  \<open>scoreB - scoreA\<close> of two finite doubles has the sign of their comparison, so the sort
  is the stable sort by descending score.
\<close>

definition score :: "nat \<Rightarrow> ('n, 'd) ColumnProfile \<Rightarrow> real" where
  "score n c = real (uniqueCount c) * (1 - real (nullCount c) / real n)"

definition isDimension :: "nat \<Rightarrow> ('n, 'd) ColumnProfile \<Rightarrow> bool" where
  "isDimension n c \<longleftrightarrow>
     type c = STRING \<and> uniqueCount c \<le> 100 \<and> real (uniqueCount c) < real n * 0.9"

text \<open>
  \<open>rawRows[0]\<close> of an empty array is undefined, and \<open>Object.keys(undefined)\<close> throws
  a TypeError. \<open>Array.prototype.sort\<close> is stable; \<open>sort_key\<close> is the stable insertion
  sort.
\<close>

definition analyzeSheetData ::
  "(string \<Rightarrow> bool) \<Rightarrow> (string \<Rightarrow> bool) \<Rightarrow> (nat \<Rightarrow> ('n, 'd) ColumnProfile \<Rightarrow> real)
     \<Rightarrow> ('n, 'd) DataRow list \<Rightarrow> string \<Rightarrow> error + ('n, 'd) DataSet" where
  "analyzeSheetData isNumeric isDateString fscore rawRows fName =
     (case rawRows of
        [] \<Rightarrow> Inl TypeError
      | row0 # _ \<Rightarrow>
          (let keys = map fst row0;
               cols = map (\<lambda>key. analyzeColumn isNumeric isDateString key rawRows) keys;
               dateCol = map_option name (find (\<lambda>c. type c = DATE \<and> uniqueCount c > 1) cols);
               numberCols = sort_key (\<lambda>c. - fscore (length rawRows) c)
                              (filter (\<lambda>c. type c = NUMBER) cols);
               measureCol = (case numberCols of [] \<Rightarrow> None | c # _ \<Rightarrow> Some (name c));
               dims = map name (sort_key uniqueCount (filter (isDimension (length rawRows)) cols))
           in Inr \<lparr>fileName = fName,
                    rows = rawRows,
                    columns = cols,
                    rowCount = length rawRows,
                    primaryDateColumn = dateCol,
                    primaryMeasureColumn = measureCol,
                    dimensions = dims\<rparr>))"

text \<open>Vocabulary for stating the properties of a profile.\<close>

definition columnValues :: "string \<Rightarrow> ('n, 'd) DataRow list \<Rightarrow> ('n, 'd) CellValue list" where
  "columnValues key rws = map (\<lambda>row. getv row key) rws"

definition presentValues :: "string \<Rightarrow> ('n, 'd) DataRow list \<Rightarrow> ('n, 'd) CellValue list" where
  "presentValues key rws = filter (\<lambda>v. \<not> isAbsent v) (columnValues key rws)"

definition countAs ::
  "(string \<Rightarrow> bool) \<Rightarrow> (string \<Rightarrow> bool) \<Rightarrow> ColumnType \<Rightarrow> ('n, 'd) CellValue list \<Rightarrow> nat" where
  "countAs isNumeric isDateString t vs =
     length (filter (\<lambda>v. classify isNumeric isDateString v = t) vs)"

section \<open>Join suggestions (services/dataProcessor.ts)\<close>

text \<open>
  \<open>toLowerCase\<close> on the ASCII letters; every other character is left as it is. Names
  are taken to be ASCII strings: a name with a letter outside ASCII that has a lower-case
  form is outside this model.
\<close>

definition lowerChar :: "char \<Rightarrow> char" where
  "lowerChar c =
     (case map_of (zip ''ABCDEFGHIJKLMNOPQRSTUVWXYZ'' ''abcdefghijklmnopqrstuvwxyz'') c of
        None \<Rightarrow> c
      | Some l \<Rightarrow> l)"

definition toLowerCase :: "string \<Rightarrow> string" where
  "toLowerCase s = map lowerChar s"

fun startsWith :: "string \<Rightarrow> string \<Rightarrow> bool" where
  "startsWith s [] = True"
| "startsWith [] (c # t) = False"
| "startsWith (a # s) (b # t) = (a = b \<and> startsWith s t)"

text \<open>\<open>s.includes(t)\<close> (the name is reserved in Isabelle): \<open>t\<close> occurs in \<open>s\<close> as a substring.\<close>

fun includesStr :: "string \<Rightarrow> string \<Rightarrow> bool" where
  "includesStr [] t = (t = [])"
| "includesStr (c # s) t = (startsWith (c # s) t \<or> includesStr s t)"

text \<open>
  \<open>col.uniqueCount / table.rowCount > 0.9\<close>. With a row count of zero the quotient is
  \<open>Infinity\<close> for a positive count, which passes the test, and \<open>NaN\<close> for zero,
  which fails it.
\<close>

definition nearUnique :: "('n, 'd) ColumnProfile \<Rightarrow> ('n, 'd) Table \<Rightarrow> bool" where
  "nearUnique c t =
     (if rowCount t = 0 then uniqueCount c > 0
      else real (uniqueCount c) / real (rowCount t) > 0.9)"

text \<open>
  \<open>crypto.randomUUID()\<close> is not deterministic. The values it returns during one call
  of \<open>suggestJoins\<close> are a parameter \<open>uuid\<close>, the \<open>k\<close>-th call returning \<open>uuid k\<close>,
  and the functions below thread the number of calls made so far.
\<close>

text \<open>Strategy 1: the two nested loops over the columns; a later hit replaces an earlier one.\<close>

definition strategy1 ::
  "(nat \<Rightarrow> string) \<Rightarrow> ('n, 'd) Table \<Rightarrow> ('n, 'd) Table
     \<Rightarrow> JoinConfig option \<times> nat \<Rightarrow> JoinConfig option \<times> nat" where
  "strategy1 uuid baseTable dimTable =
     fold (\<lambda>baseCol.
        fold (\<lambda>dimCol (bestJoin, k).
                if toLowerCase (name baseCol) = toLowerCase (name dimCol)
                   \<and> nearUnique dimCol dimTable
                then (Some \<lparr>id_join = uuid k,
                             rightTableId = id_table dimTable,
                             leftColumn = name baseCol,
                             rightColumn = name dimCol,
                             joinType = LEFT\<rparr>, Suc k)
                else (bestJoin, k))
             (columns dimTable))
       (columns baseTable)"

text \<open>Strategy 2: the foreign-key naming convention.\<close>

definition isIdColumn :: "('n, 'd) Table \<Rightarrow> ('n, 'd) ColumnProfile \<Rightarrow> bool" where
  "isIdColumn dimTable c \<longleftrightarrow>
     toLowerCase (name c) = ''id''
     \<or> toLowerCase (name c) = toLowerCase (tableName dimTable) @ ''_id''
     \<or> toLowerCase (name c) = butlast (toLowerCase (tableName dimTable)) @ ''_id''"

definition isForeignKey :: "('n, 'd) Table \<Rightarrow> ('n, 'd) ColumnProfile \<Rightarrow> bool" where
  "isForeignKey dimTable c \<longleftrightarrow>
     includesStr (toLowerCase (name c)) (toLowerCase (tableName dimTable))
     \<or> toLowerCase (name c) = butlast (toLowerCase (tableName dimTable)) @ ''_id''"

definition strategy2 ::
  "(nat \<Rightarrow> string) \<Rightarrow> ('n, 'd) Table \<Rightarrow> ('n, 'd) Table \<Rightarrow> nat \<Rightarrow> JoinConfig option \<times> nat" where
  "strategy2 uuid baseTable dimTable k =
     (case find (isIdColumn dimTable) (columns dimTable) of
        None \<Rightarrow> (None, k)
      | Some dimIdCol \<Rightarrow>
          if nearUnique dimIdCol dimTable
          then (case find (isForeignKey dimTable) (columns baseTable) of
                  None \<Rightarrow> (None, k)
                | Some matchingBaseCol \<Rightarrow>
                    (Some \<lparr>id_join = uuid k,
                           rightTableId = id_table dimTable,
                           leftColumn = name matchingBaseCol,
                           rightColumn = name dimIdCol,
                           joinType = LEFT\<rparr>, Suc k))
          else (None, k))"

text \<open>The body of \<open>potentialDimensions.forEach\<close> up to the final push.\<close>

definition bestJoinFor ::
  "(nat \<Rightarrow> string) \<Rightarrow> ('n, 'd) Table \<Rightarrow> ('n, 'd) Table \<Rightarrow> nat \<Rightarrow> JoinConfig option \<times> nat" where
  "bestJoinFor uuid baseTable dimTable k =
     (case strategy1 uuid baseTable dimTable (None, k) of
        (Some bestJoin, k') \<Rightarrow> (Some bestJoin, k')
      | (None, k') \<Rightarrow> strategy2 uuid baseTable dimTable k')"

definition suggestStep ::
  "(nat \<Rightarrow> string) \<Rightarrow> ('n, 'd) Table \<Rightarrow> ('n, 'd) Table
     \<Rightarrow> JoinConfig list \<times> nat \<Rightarrow> JoinConfig list \<times> nat" where
  "suggestStep uuid baseTable dimTable = (\<lambda>(suggestions, k).
     (case bestJoinFor uuid baseTable dimTable k of
        (Some bestJoin, k') \<Rightarrow> (suggestions @ [bestJoin], k')
      | (None, k') \<Rightarrow> (suggestions, k')))"

definition potentialDimensions ::
  "string \<Rightarrow> ('n, 'd) TableCollection \<Rightarrow> ('n, 'd) Table list" where
  "potentialDimensions baseId tables = filter (\<lambda>t. id_table t \<noteq> baseId) (map snd tables)"

text \<open>
  \<open>tables[baseTableId]\<close> is the property lookup \<open>getProp\<close>. A base identifier that
  names a member of \<open>Object.prototype\<close> passes the test \<open>!baseTable\<close>; the value has
  no \<open>columns\<close>, so the loop over \<open>baseTable.columns\<close> throws a TypeError for the
  first table of \<open>potentialDimensions\<close>, if there is one.
\<close>

definition suggestJoins ::
  "(nat \<Rightarrow> string) \<Rightarrow> string \<Rightarrow> ('n, 'd) TableCollection \<Rightarrow> error + JoinConfig list" where
  "suggestJoins uuid baseId tables =
     (case getProp tables baseId of
        Absent \<Rightarrow> Inr []
      | Inherited \<Rightarrow> if potentialDimensions baseId tables = [] then Inr [] else Inl TypeError
      | Own baseTable \<Rightarrow>
          Inr (fst (fold (suggestStep uuid baseTable) (potentialDimensions baseId tables) ([], 0))))"


text \<open>Vocabulary for the proofs about the suggester.\<close>

definition s1inner ::
  "(nat \<Rightarrow> string) \<Rightarrow> ('n, 'd) Table \<Rightarrow> ('n, 'd) ColumnProfile \<Rightarrow> ('n, 'd) ColumnProfile
     \<Rightarrow> JoinConfig option \<times> nat \<Rightarrow> JoinConfig option \<times> nat" where
  "s1inner uuid dimTable baseCol = (\<lambda>dimCol (bestJoin, k).
                if toLowerCase (name baseCol) = toLowerCase (name dimCol)
                   \<and> nearUnique dimCol dimTable
                then (Some \<lparr>id_join = uuid k,
                             rightTableId = id_table dimTable,
                             leftColumn = name baseCol,
                             rightColumn = name dimCol,
                             joinType = LEFT\<rparr>, Suc k)
                else (bestJoin, k))"

definition leftOrNone :: "JoinConfig option \<Rightarrow> bool" where
  "leftOrNone b = (case b of None \<Rightarrow> True | Some j \<Rightarrow> joinType j = LEFT)"


section \<open>The join engine over an explicit store\<close>

text \<open>
  Whether \<open>executeDataModel\<close> leaves its inputs alone is a question about object
  identity, which the functions above cannot express. This section repeats the function
  over a store of mutable objects. The objects of the source that \<open>executeDataModel\<close>
  touches are row objects, arrays of rows, column profile objects, arrays of column
  profiles and arrays of dimension names; each kind has a heap of its own, as the
  static types keep them apart. A heap is a total map from addresses to contents with
  the next free address; a fresh object takes the next free address. The \<open>Map\<close>
  that indexes the right table is local to one iteration and stays a value.
\<close>

record 'a heap =
  cells :: "nat \<Rightarrow> 'a"
  nextFree :: nat

definition alloc :: "'a \<Rightarrow> 'a heap \<Rightarrow> nat \<times> 'a heap" where
  "alloc v h = (nextFree h, \<lparr>cells = (cells h)(nextFree h := v), nextFree = Suc (nextFree h)\<rparr>)"

definition writeCell :: "nat \<Rightarrow> 'a \<Rightarrow> 'a heap \<Rightarrow> 'a heap" where
  "writeCell a v h = h\<lparr>cells := (cells h)(a := v)\<rparr>"

record ('n, 'd) store =
  rowObjs :: "('n, 'd) DataRow heap"
  rowArrays :: "nat list heap"
  colObjs :: "('n, 'd) ColumnProfile heap"
  colArrays :: "nat list heap"
  dimArrays :: "string list heap"

text \<open>
  A Table object and a DataSet object, with references where the source has arrays.
  The fields \<open>fileName\<close>, \<open>rowCount\<close> and \<open>id\<close> of a Table, which
  \<open>executeDataModel\<close> never reads, are left out.
\<close>

record TableRef =
  rows_ref :: nat
  columns_ref :: nat
  dimensions_ref :: nat
  tableName_ref :: string
  primaryDateColumn_ref :: "string option"
  primaryMeasureColumn_ref :: "string option"

record DataSetRef =
  out_fileName :: string
  out_rows :: nat
  out_columns :: nat
  out_rowCount :: nat
  out_primaryDateColumn :: "string option"
  out_primaryMeasureColumn :: "string option"
  out_dimensions :: nat

text \<open>\<open>rows.map(r => ({ ...r }))\<close>: a fresh copy of every row object, in order.\<close>

fun copyRowsH :: "nat list \<Rightarrow> ('n, 'd) DataRow heap \<Rightarrow> nat list \<times> ('n, 'd) DataRow heap" where
  "copyRowsH [] h = ([], h)"
| "copyRowsH (r # rs) h =
     (case alloc (cells h r) h of (a, h1) \<Rightarrow>
        (case copyRowsH rs h1 of (as, h2) \<Rightarrow> (a # as, h2)))"

text \<open>The index of the right table: the \<open>Map\<close> holds references to its row objects.\<close>

definition buildRightMapH ::
  "('n \<Rightarrow> string) \<Rightarrow> ('d \<Rightarrow> string) \<Rightarrow> string \<Rightarrow> nat list \<Rightarrow> ('n, 'd) store
     \<Rightarrow> (string \<rightharpoonup> nat)" where
  "buildRightMapH ns ds rcol rrows s =
     fold (\<lambda>row m. m(String_js ns ds (getv (cells (rowObjs s) row) rcol) \<mapsto> row)) rrows Map.empty"

text \<open>
  \<open>rightTable.columns.map(col => ({ ...col, name: ... }))\<close>: a fresh column profile
  object for every column of the right table.
\<close>

fun renameColsH ::
  "string \<Rightarrow> nat list \<Rightarrow> ('n, 'd) ColumnProfile heap \<Rightarrow> nat list \<times> ('n, 'd) ColumnProfile heap" where
  "renameColsH rightPrefix [] h = ([], h)"
| "renameColsH rightPrefix (c # cs) h =
     (case alloc ((cells h c)\<lparr>name := prefixed rightPrefix (name (cells h c))\<rparr>) h of (a, h1) \<Rightarrow>
        (case renameColsH rightPrefix cs h1 of (as, h2) \<Rightarrow> (a # as, h2)))"

text \<open>The column objects of a table, read through its \<open>columns\<close> array.\<close>

definition columnsOf :: "('n, 'd) store \<Rightarrow> TableRef \<Rightarrow> ('n, 'd) ColumnProfile list" where
  "columnsOf s t = map (cells (colObjs s)) (cells (colArrays s) (columns_ref t))"

text \<open>
  \<open>const mergedRow = { ...leftRow }\<close> followed by the \<open>forEach\<close> that writes the
  right row's values, or nulls, into \<open>mergedRow\<close>.
\<close>

definition mergeMatchH ::
  "TableRef \<Rightarrow> nat \<Rightarrow> nat \<Rightarrow> ('n, 'd) store \<Rightarrow> nat \<times> ('n, 'd) store" where
  "mergeMatchH rightTable rightRow leftRow s =
     (case alloc (cells (rowObjs s) leftRow) (rowObjs s) of (mergedRow, h1) \<Rightarrow>
        (mergedRow,
         s\<lparr>rowObjs :=
             fold (\<lambda>col h. writeCell mergedRow
                              (setv (prefixed (tableName_ref rightTable) (name col))
                                    (getv (cells h rightRow) (name col)) (cells h mergedRow)) h)
                  (columnsOf s rightTable) h1\<rparr>))"

definition mergeNullsH ::
  "TableRef \<Rightarrow> nat \<Rightarrow> ('n, 'd) store \<Rightarrow> nat \<times> ('n, 'd) store" where
  "mergeNullsH rightTable leftRow s =
     (case alloc (cells (rowObjs s) leftRow) (rowObjs s) of (mergedRow, h1) \<Rightarrow>
        (mergedRow,
         s\<lparr>rowObjs :=
             fold (\<lambda>col h. writeCell mergedRow
                              (setv (prefixed (tableName_ref rightTable) (name col)) VNull
                                    (cells h mergedRow)) h)
                  (columnsOf s rightTable) h1\<rparr>))"

text \<open>\<open>newRows.push(mergedRow)\<close>\<close>

definition pushRowH :: "nat \<Rightarrow> nat \<Rightarrow> ('n, 'd) store \<Rightarrow> ('n, 'd) store" where
  "pushRowH newRows mergedRow s =
     s\<lparr>rowArrays := writeCell newRows (cells (rowArrays s) newRows @ [mergedRow]) (rowArrays s)\<rparr>"

fun joinRowsH ::
  "('n \<Rightarrow> string) \<Rightarrow> ('d \<Rightarrow> string) \<Rightarrow> JoinConfig \<Rightarrow> TableRef \<Rightarrow> (string \<rightharpoonup> nat) \<Rightarrow> nat
     \<Rightarrow> nat list \<Rightarrow> ('n, 'd) store \<Rightarrow> ('n, 'd) store" where
  "joinRowsH ns ds join rightTable rightMap newRows [] s = s"
| "joinRowsH ns ds join rightTable rightMap newRows (leftRow # rest) s =
     (case rightMap (String_js ns ds (getv (cells (rowObjs s) leftRow) (leftColumn join))) of
        Some rightRow \<Rightarrow>
          (case mergeMatchH rightTable rightRow leftRow s of (mergedRow, s1) \<Rightarrow>
             joinRowsH ns ds join rightTable rightMap newRows rest (pushRowH newRows mergedRow s1))
      | None \<Rightarrow>
          (if joinType join = LEFT
           then (case mergeNullsH rightTable leftRow s of (mergedRow, s1) \<Rightarrow>
                   joinRowsH ns ds join rightTable rightMap newRows rest
                     (pushRowH newRows mergedRow s1))
           else joinRowsH ns ds join rightTable rightMap newRows rest s))"

text \<open>The three variables of the loop over the joins, now references, with the store.\<close>

record JoinAccRef =
  resultRows_ref :: nat
  resultColumns_ref :: nat
  currentDimensions_ref :: nat

text \<open>One iteration of the loop over the joins, for a right table that is there.\<close>

definition joinWithH ::
  "('n \<Rightarrow> string) \<Rightarrow> ('d \<Rightarrow> string) \<Rightarrow> JoinConfig \<Rightarrow> TableRef
     \<Rightarrow> JoinAccRef \<times> ('n, 'd) store \<Rightarrow> JoinAccRef \<times> ('n, 'd) store" where
  "joinWithH ns ds join rightTable = (\<lambda>(acc, s).
          (let rightMap = buildRightMapH ns ds (rightColumn join)
                            (cells (rowArrays s) (rows_ref rightTable)) s in
           case renameColsH (tableName_ref rightTable)
                  (cells (colArrays s) (columns_ref rightTable)) (colObjs s) of
             (renamed, ch) \<Rightarrow>
           case alloc renamed (colArrays s) of (renamedCols, ca1) \<Rightarrow>
           case alloc [] (rowArrays s) of (newRows, ra) \<Rightarrow>
           let s1 = joinRowsH ns ds join rightTable rightMap newRows
                      (cells (rowArrays s) (resultRows_ref acc))
                      (s\<lparr>rowArrays := ra, colObjs := ch, colArrays := ca1\<rparr>) in
           case alloc (cells (colArrays s1) (resultColumns_ref acc)
                         @ cells (colArrays s1) renamedCols) (colArrays s1) of
             (newColumns, ca2) \<Rightarrow>
           case alloc (map (prefixed (tableName_ref rightTable))
                         (cells (dimArrays s1) (dimensions_ref rightTable))) (dimArrays s1) of
             (newDims, da1) \<Rightarrow>
           case alloc (cells da1 (currentDimensions_ref acc) @ cells da1 newDims) da1 of
             (newDimensions, da2) \<Rightarrow>
           (\<lparr>resultRows_ref = newRows, resultColumns_ref = newColumns,
             currentDimensions_ref = newDimensions\<rparr>,
            s1\<lparr>colArrays := ca2, dimArrays := da2\<rparr>)))"

text \<open>
  One iteration with the lookup of the right table. A TypeError is thrown at
  \<open>rightTable.rows.forEach\<close>, before the iteration has created any object, so the store
  of a failed step is the store it started from.
\<close>

definition joinStepH ::
  "('n \<Rightarrow> string) \<Rightarrow> ('d \<Rightarrow> string) \<Rightarrow> (string \<times> TableRef) list \<Rightarrow> JoinConfig
     \<Rightarrow> JoinAccRef \<times> ('n, 'd) store \<Rightarrow> (error + JoinAccRef) \<times> ('n, 'd) store" where
  "joinStepH ns ds tables join = (\<lambda>(acc, s).
     (case getProp tables (rightTableId join) of
        Absent \<Rightarrow> (Inr acc, s)
      | Inherited \<Rightarrow> (Inl TypeError, s)
      | Own rightTable \<Rightarrow>
          (case joinWithH ns ds join rightTable (acc, s) of (acc', s') \<Rightarrow> (Inr acc', s'))))"

fun joinLoopH ::
  "('n \<Rightarrow> string) \<Rightarrow> ('d \<Rightarrow> string) \<Rightarrow> (string \<times> TableRef) list \<Rightarrow> JoinConfig list
     \<Rightarrow> JoinAccRef \<times> ('n, 'd) store \<Rightarrow> (error + JoinAccRef) \<times> ('n, 'd) store" where
  "joinLoopH ns ds tables [] (acc, s) = (Inr acc, s)"
| "joinLoopH ns ds tables (join # rest) (acc, s) =
     (case joinStepH ns ds tables join (acc, s) of
        (Inl e, s') \<Rightarrow> (Inl e, s')
      | (Inr acc', s') \<Rightarrow> joinLoopH ns ds tables rest (acc', s'))"

text \<open>
  A base identifier that names a member of \<open>Object.prototype\<close> makes
  \<open>baseTable.rows.map\<close> throw a TypeError before anything is created. An error in the
  loop leaves the objects created so far in the store.
\<close>

definition executeDataModelH ::
  "('n \<Rightarrow> string) \<Rightarrow> ('d \<Rightarrow> string) \<Rightarrow> (string \<times> TableRef) list \<Rightarrow> DataModel
     \<Rightarrow> ('n, 'd) store \<Rightarrow> (error + DataSetRef) \<times> ('n, 'd) store" where
  "executeDataModelH ns ds tables model s =
     (case getProp tables (baseTableId model) of
        Absent \<Rightarrow> (Inl (Error ''Base table not found''), s)
      | Inherited \<Rightarrow> (Inl TypeError, s)
      | Own baseTable \<Rightarrow>
          (case copyRowsH (cells (rowArrays s) (rows_ref baseTable)) (rowObjs s) of
             (copies, rh) \<Rightarrow>
           case alloc copies (rowArrays s) of (resultRows0, ra) \<Rightarrow>
           case alloc (cells (colArrays s) (columns_ref baseTable)) (colArrays s) of
             (resultColumns0, ca) \<Rightarrow>
           case alloc (cells (dimArrays s) (dimensions_ref baseTable)) (dimArrays s) of
             (currentDimensions0, da) \<Rightarrow>
           case joinLoopH ns ds tables (joins model)
                  (\<lparr>resultRows_ref = resultRows0, resultColumns_ref = resultColumns0,
                    currentDimensions_ref = currentDimensions0\<rparr>,
                   s\<lparr>rowObjs := rh, rowArrays := ra, colArrays := ca, dimArrays := da\<rparr>) of
             (Inl e, s') \<Rightarrow> (Inl e, s')
           | (Inr acc, s') \<Rightarrow>
           (Inr \<lparr>out_fileName = ''Model: '' @ tableName_ref baseTable @ '' + ''
                                   @ show_nat (length (joins model)) @ '' joins'',
                  out_rows = resultRows_ref acc,
                  out_columns = resultColumns_ref acc,
                  out_rowCount = length (cells (rowArrays s') (resultRows_ref acc)),
                  out_primaryDateColumn = primaryDateColumn_ref baseTable,
                  out_primaryMeasureColumn = primaryMeasureColumn_ref baseTable,
                  out_dimensions = currentDimensions_ref acc\<rparr>, s')))"

text \<open>
  One heap extends another when it keeps every allocated cell; a store extends
  another when each of its heaps does.
\<close>

definition heapExt :: "'a heap \<Rightarrow> 'a heap \<Rightarrow> bool" where
  "heapExt h h' \<longleftrightarrow> nextFree h \<le> nextFree h' \<and> (\<forall>a<nextFree h. cells h' a = cells h a)"

definition storeExt :: "('n, 'd) store \<Rightarrow> ('n, 'd) store \<Rightarrow> bool" where
  "storeExt s s' \<longleftrightarrow>
     heapExt (rowObjs s) (rowObjs s') \<and> heapExt (rowArrays s) (rowArrays s') \<and>
     heapExt (colObjs s) (colObjs s') \<and> heapExt (colArrays s) (colArrays s') \<and>
     heapExt (dimArrays s) (dimArrays s')"

text \<open>
  The table a Table object stands for in a store: its arrays and the objects in them,
  read through the references. A table is allocated when all these references are.
\<close>

definition rowsOf :: "('n, 'd) store \<Rightarrow> nat \<Rightarrow> ('n, 'd) DataRow list" where
  "rowsOf s r = map (cells (rowObjs s)) (cells (rowArrays s) r)"

definition colsAt :: "('n, 'd) store \<Rightarrow> nat \<Rightarrow> ('n, 'd) ColumnProfile list" where
  "colsAt s r = map (cells (colObjs s)) (cells (colArrays s) r)"

definition tableOf :: "('n, 'd) store \<Rightarrow> string \<Rightarrow> TableRef \<Rightarrow> ('n, 'd) Table" where
  "tableOf s k t =
     \<lparr>fileName = k,
      rows = rowsOf s (rows_ref t),
      columns = colsAt s (columns_ref t),
      rowCount = length (cells (rowArrays s) (rows_ref t)),
      primaryDateColumn = primaryDateColumn_ref t,
      primaryMeasureColumn = primaryMeasureColumn_ref t,
      dimensions = cells (dimArrays s) (dimensions_ref t),
      id_table = k,
      tableName = tableName_ref t\<rparr>"

definition allocated :: "('n, 'd) store \<Rightarrow> TableRef \<Rightarrow> bool" where
  "allocated s t \<longleftrightarrow>
     rows_ref t < nextFree (rowArrays s) \<and>
     list_all (\<lambda>r. r < nextFree (rowObjs s)) (cells (rowArrays s) (rows_ref t)) \<and>
     columns_ref t < nextFree (colArrays s) \<and>
     list_all (\<lambda>c. c < nextFree (colObjs s)) (cells (colArrays s) (columns_ref t)) \<and>
     dimensions_ref t < nextFree (dimArrays s)"

text \<open>A step that changes nothing but the row objects and the row arrays.\<close>

definition rowsOnly :: "('n, 'd) store \<Rightarrow> ('n, 'd) store \<Rightarrow> bool" where
  "rowsOnly s s' \<longleftrightarrow> colObjs s' = colObjs s \<and> colArrays s' = colArrays s \<and> dimArrays s' = dimArrays s"


text \<open>
  The table collection a store holds, the accumulator the three references of the loop
  stand for, and when these references are allocated.
\<close>

definition absTables :: "('n, 'd) store \<Rightarrow> (string \<times> TableRef) list \<Rightarrow> ('n, 'd) TableCollection" where
  "absTables s tables = map (\<lambda>(k, t). (k, tableOf s k t)) tables"

definition accOf :: "('n, 'd) store \<Rightarrow> JoinAccRef \<Rightarrow> ('n, 'd) JoinAcc" where
  "accOf s acc =
     \<lparr>resultRows = rowsOf s (resultRows_ref acc),
      resultColumns = colsAt s (resultColumns_ref acc),
      currentDimensions = cells (dimArrays s) (currentDimensions_ref acc)\<rparr>"

definition allocatedAcc :: "('n, 'd) store \<Rightarrow> JoinAccRef \<Rightarrow> bool" where
  "allocatedAcc s acc \<longleftrightarrow>
     resultRows_ref acc < nextFree (rowArrays s) \<and>
     list_all (\<lambda>r. r < nextFree (rowObjs s)) (cells (rowArrays s) (resultRows_ref acc)) \<and>
     resultColumns_ref acc < nextFree (colArrays s) \<and>
     list_all (\<lambda>c. c < nextFree (colObjs s)) (cells (colArrays s) (resultColumns_ref acc)) \<and>
     currentDimensions_ref acc < nextFree (dimArrays s)"


text \<open>The dataset a result of \<open>executeDataModelH\<close> stands for in the final store.\<close>

definition dataSetOf :: "('n, 'd) store \<Rightarrow> DataSetRef \<Rightarrow> ('n, 'd) DataSet" where
  "dataSetOf s out =
     \<lparr>fileName = out_fileName out,
      rows = rowsOf s (out_rows out),
      columns = colsAt s (out_columns out),
      rowCount = out_rowCount out,
      primaryDateColumn = out_primaryDateColumn out,
      primaryMeasureColumn = out_primaryMeasureColumn out,
      dimensions = cells (dimArrays s) (out_dimensions out)\<rparr>"

definition resultOf :: "(error + DataSetRef) \<times> ('n, 'd) store \<Rightarrow> error + ('n, 'd) DataSet" where
  "resultOf r = (case r of (Inl e, s) \<Rightarrow> Inl e | (Inr out, s) \<Rightarrow> Inr (dataSetOf s out))"


section \<open>Example inputs\<close>

text \<open>The tables Orders and Customers, with natural numbers for the numbers and no dates.\<close>

definition no_date :: "unit \<Rightarrow> string" where
  "no_date d = ''Invalid Date''"

definition ex_Orders :: "(nat, unit) Table" where
  "ex_Orders =
     \<lparr>fileName = ''Orders'',
      rows = [[(''id'', VNumber 1), (''cust'', VString ''A''), (''amt'', VNumber 100)],
              [(''id'', VNumber 2), (''cust'', VString ''B''), (''amt'', VNumber 50)]],
      columns = [\<lparr>name = ''id'', type = NUMBER, nullCount = 0, uniqueCount = 2,
                   exampleValues = [VNumber 1, VNumber 2]\<rparr>,
                 \<lparr>name = ''cust'', type = STRING, nullCount = 0, uniqueCount = 2,
                   exampleValues = [VString ''A'', VString ''B'']\<rparr>,
                 \<lparr>name = ''amt'', type = NUMBER, nullCount = 0, uniqueCount = 2,
                   exampleValues = [VNumber 100, VNumber 50]\<rparr>],
      rowCount = 2,
      primaryDateColumn = None,
      primaryMeasureColumn = Some ''id'',
      dimensions = [],
      id_table = ''Orders'',
      tableName = ''Orders''\<rparr>"

definition ex_Customers :: "(nat, unit) Table" where
  "ex_Customers =
     \<lparr>fileName = ''Customers'',
      rows = [[(''cust'', VString ''A''), (''tier'', VString ''gold'')]],
      columns = [\<lparr>name = ''cust'', type = STRING, nullCount = 0, uniqueCount = 1,
                   exampleValues = [VString ''A'']\<rparr>,
                 \<lparr>name = ''tier'', type = STRING, nullCount = 0, uniqueCount = 1,
                   exampleValues = [VString ''gold'']\<rparr>],
      rowCount = 1,
      primaryDateColumn = None,
      primaryMeasureColumn = None,
      dimensions = [],
      id_table = ''Customers'',
      tableName = ''Customers''\<rparr>"

definition ex_tables :: "(nat, unit) TableCollection" where
  "ex_tables = [(''Orders'', ex_Orders), (''Customers'', ex_Customers)]"

definition ex_join :: "JoinType \<Rightarrow> JoinConfig" where
  "ex_join jt = \<lparr>id_join = ''j1'', rightTableId = ''Customers'', leftColumn = ''cust'',
                 rightColumn = ''cust'', joinType = jt\<rparr>"

definition ex_model :: "JoinType \<Rightarrow> DataModel" where
  "ex_model jt = \<lparr>baseTableId = ''Orders'', joins = [ex_join jt]\<rparr>"



definition ex_join_again :: JoinConfig where
  "ex_join_again = \<lparr>id_join = ''j2'', rightTableId = ''Customers'', leftColumn = ''id'',
                    rightColumn = ''cust'', joinType = LEFT\<rparr>"

definition ex_model_twice :: DataModel where
  "ex_model_twice = \<lparr>baseTableId = ''Orders'', joins = [ex_join LEFT, ex_join_again]\<rparr>"

definition ex_join_missing :: JoinConfig where
  "ex_join_missing = \<lparr>id_join = ''j0'', rightTableId = ''Missing'', leftColumn = ''cust'',
                      rightColumn = ''cust'', joinType = INNER\<rparr>"

definition ex_model_nobase :: DataModel where
  "ex_model_nobase = \<lparr>baseTableId = ''Missing'', joins = [ex_join LEFT]\<rparr>"

definition ex_acc :: "(nat, unit) JoinAcc" where
  "ex_acc = \<lparr>resultRows = rows ex_Orders, resultColumns = columns ex_Orders,
             currentDimensions = dimensions ex_Orders\<rparr>"

definition ex_Customers_dup :: "(nat, unit) Table" where
  "ex_Customers_dup =
     ex_Customers\<lparr>rows := [[(''cust'', VString ''A''), (''tier'', VString ''gold'')],
                           [(''cust'', VString ''B''), (''tier'', VString ''basic'')],
                           [(''cust'', VString ''A''), (''tier'', VString ''silver'')]],
                  rowCount := 3\<rparr>"

definition ex_tables_dup :: "(nat, unit) TableCollection" where
  "ex_tables_dup = [(''Orders'', ex_Orders), (''Customers'', ex_Customers_dup)]"

definition ex_row_nullkey :: "(nat, unit) DataRow" where
  "ex_row_nullkey = [(''id'', VNumber 3), (''cust'', VNull), (''amt'', VNumber 7)]"

definition ex_right_nullkey :: "(nat, unit) DataRow" where
  "ex_right_nullkey = [(''cust'', VNull), (''tier'', VString ''unknown'')]"

definition ex_Customers_null :: "(nat, unit) Table" where
  "ex_Customers_null =
     ex_Customers\<lparr>rows := [[(''cust'', VString ''A''), (''tier'', VString ''gold'')], ex_right_nullkey],
                  rowCount := 2\<rparr>"

definition ex_tables_null :: "(nat, unit) TableCollection" where
  "ex_tables_null = [(''Orders'', ex_Orders), (''Customers'', ex_Customers_null)]"

text \<open>
  A model whose join names a right table that is not in the collection under a key of
  \<open>Object.prototype\<close>; a model whose only join names a missing table; the model with
  no join.
\<close>

definition ex_join_toString :: JoinConfig where
  "ex_join_toString = \<lparr>id_join = ''j3'', rightTableId = ''toString'', leftColumn = ''cust'',
                       rightColumn = ''cust'', joinType = LEFT\<rparr>"

definition ex_model_toString :: DataModel where
  "ex_model_toString = \<lparr>baseTableId = ''Orders'', joins = [ex_join_toString]\<rparr>"

definition ex_model_skip :: DataModel where
  "ex_model_skip = \<lparr>baseTableId = ''Orders'', joins = [ex_join_missing]\<rparr>"

definition ex_model_nojoin :: DataModel where
  "ex_model_nojoin = \<lparr>baseTableId = ''Orders'', joins = []\<rparr>"

text \<open>
  Example instances of the two parsing parameters, enough for the strings of the
  examples below: strings of decimal digits are numeric, and none of the strings is a date.
\<close>

definition ex_isNumeric :: "string \<Rightarrow> bool" where
  "ex_isNumeric s = list_all (\<lambda>c. c \<in> set ''0123456789'') s"

definition ex_isDateString :: "string \<Rightarrow> bool" where
  "ex_isDateString s = False"

definition ex_rows_80 :: "(nat, unit) DataRow list" where
  "ex_rows_80 = [[(''v'', VString ''1'')], [(''v'', VString ''2'')], [(''v'', VString ''3'')],
                 [(''v'', VString ''4'')], [(''v'', VString ''abc'')], [(''v'', VNull)]]"

definition ex_rows_const :: "(nat, unit) DataRow list" where
  "ex_rows_const = [[(''k'', VString ''x''), (''c'', VString ''a'')],
                    [(''k'', VString ''y''), (''c'', VString ''a'')],
                    [(''k'', VString ''z''), (''c'', VString ''a'')]]"

definition ex_rows_dims :: "(nat, unit) DataRow list" where
  "ex_rows_dims = [[(''region'', VString ''north''), (''kind'', VString ''a''), (''n'', VNumber 1)],
                   [(''region'', VString ''south''), (''kind'', VString ''a''), (''n'', VNumber 2)],
                   [(''region'', VString ''east''), (''kind'', VString ''b''), (''n'', VNumber 3)],
                   [(''region'', VString ''north''), (''kind'', VString ''b''), (''n'', VNumber 4)],
                   [(''region'', VString ''south''), (''kind'', VString ''a''), (''n'', VNumber 5)]]"

definition ex_uuid :: "nat \<Rightarrow> string" where
  "ex_uuid k = ''uuid-'' @ show_nat k"

definition ex_profile :: "string \<Rightarrow> ColumnType \<Rightarrow> nat \<Rightarrow> (nat, unit) ColumnProfile" where
  "ex_profile n t u = \<lparr>name = n, type = t, nullCount = 0, uniqueCount = u, exampleValues = []\<rparr>"

definition ex_table ::
  "string \<Rightarrow> (nat, unit) ColumnProfile list \<Rightarrow> nat \<Rightarrow> (nat, unit) Table" where
  "ex_table n cs k =
     \<lparr>fileName = n, rows = [], columns = cs, rowCount = k, primaryDateColumn = None,
      primaryMeasureColumn = None, dimensions = [], id_table = n, tableName = n\<rparr>"

definition ex_Orders_E :: "(nat, unit) Table" where
  "ex_Orders_E = ex_table ''Orders''
     [ex_profile ''order_no'' NUMBER 5, ex_profile ''customer_id'' NUMBER 3,
      ex_profile ''amt'' NUMBER 5] 5"

definition ex_Customers_E :: "(nat, unit) Table" where
  "ex_Customers_E = ex_table ''Customers''
     [ex_profile ''id'' NUMBER 3, ex_profile ''tier'' STRING 2] 3"

definition ex_tables_E :: "(nat, unit) TableCollection" where
  "ex_tables_E = [(''Orders'', ex_Orders_E), (''Customers'', ex_Customers_E)]"

definition ex_Orders_fm :: "(nat, unit) Table" where
  "ex_Orders_fm = ex_table ''Orders''
     [ex_profile ''Customers_region'' STRING 2, ex_profile ''customer_id'' NUMBER 3,
      ex_profile ''amt'' NUMBER 5] 5"

definition ex_tables_fm :: "(nat, unit) TableCollection" where
  "ex_tables_fm = [(''Orders'', ex_Orders_fm), (''Customers'', ex_Customers_E)]"

text \<open>A heap holding the given objects at addresses \<open>0, 1, ...\<close>; \<open>d\<close> fills the free cells.\<close>

definition heapOf :: "'a \<Rightarrow> 'a list \<Rightarrow> 'a heap" where
  "heapOf d xs = \<lparr>cells = (\<lambda>a. if a < length xs then xs ! a else d), nextFree = length xs\<rparr>"

text \<open>The tables of the first example, as objects in a store.\<close>

definition ex_store :: "(nat, unit) store" where
  "ex_store =
     \<lparr>rowObjs = heapOf [] (rows ex_Orders @ rows ex_Customers),
      rowArrays = heapOf [] [[0, 1], [2]],
      colObjs = heapOf (ex_profile [] UNKNOWN 0) (columns ex_Orders @ columns ex_Customers),
      colArrays = heapOf [] [[0, 1, 2], [3, 4]],
      dimArrays = heapOf [] [[], []]\<rparr>"

definition ex_OrdersRef :: TableRef where
  "ex_OrdersRef =
     \<lparr>rows_ref = 0, columns_ref = 0, dimensions_ref = 0, tableName_ref = ''Orders'',
      primaryDateColumn_ref = None, primaryMeasureColumn_ref = Some ''id''\<rparr>"

definition ex_CustomersRef :: TableRef where
  "ex_CustomersRef =
     \<lparr>rows_ref = 1, columns_ref = 1, dimensions_ref = 1, tableName_ref = ''Customers'',
      primaryDateColumn_ref = None, primaryMeasureColumn_ref = None\<rparr>"

definition ex_tablesRef :: "(string \<times> TableRef) list" where
  "ex_tablesRef = [(''Orders'', ex_OrdersRef), (''Customers'', ex_CustomersRef)]"
section \<open>Properties\<close>

subsection \<open>The join engine\<close>


lemma length_joinRows_le:
  "length (joinRows ns ds j rt m xs) \<le> length xs"
  by (induction xs) (auto split: option.splits)

lemma length_joinRows_LEFT:
  "joinType j = LEFT \<Longrightarrow> length (joinRows ns ds j rt m xs) = length xs"
  by (induction xs) (auto split: option.splits)


lemma resultRows_joinWith:
  "resultRows (joinWith ns ds j rt acc) =
     joinRows ns ds j rt (buildRightMap ns ds (rightColumn j) (rows rt)) (resultRows acc)"
  by (simp add: joinWith_def Let_def)

lemma resultColumns_joinWith:
  "resultColumns (joinWith ns ds j rt acc) = resultColumns acc @ rightColsRenamed rt"
  by (simp add: joinWith_def Let_def)

lemma joinStep_Own:
  "getProp tables (rightTableId j) = Own rt \<Longrightarrow>
   joinStep ns ds tables j acc = Inr (joinWith ns ds j rt acc)"
  by (simp add: joinStep_def)


lemma joinStep_Inherited:
  "getProp tables (rightTableId j) = Inherited \<Longrightarrow> joinStep ns ds tables j acc = Inl TypeError"
  by (simp add: joinStep_def)

lemma joinStep_Inr_cases:
  assumes "joinStep ns ds tables j acc = Inr acc'"
  shows "(getProp tables (rightTableId j) = Absent \<and> acc' = acc)
         \<or> (\<exists>rt. getProp tables (rightTableId j) = Own rt \<and> acc' = joinWith ns ds j rt acc)"
  using assms by (cases "getProp tables (rightTableId j)") (auto simp: joinStep_def)

lemma length_joinStep_le:
  "joinStep ns ds tables j acc = Inr acc' \<Longrightarrow> length (resultRows acc') \<le> length (resultRows acc)"
  using joinStep_Inr_cases [of ns ds tables j acc acc']
  by (auto simp: resultRows_joinWith length_joinRows_le)

lemma length_joinStep_LEFT:
  "joinStep ns ds tables j acc = Inr acc' \<Longrightarrow> joinType j = LEFT \<Longrightarrow>
   length (resultRows acc') = length (resultRows acc)"
  using joinStep_Inr_cases [of ns ds tables j acc acc']
  by (auto simp: resultRows_joinWith length_joinRows_LEFT)

lemma length_joinLoop_le:
  "joinLoop ns ds tables js acc = Inr acc' \<Longrightarrow> length (resultRows acc') \<le> length (resultRows acc)"
proof (induction js arbitrary: acc)
  case Nil
  then show ?case by simp
next
  case (Cons j js)
  then obtain a where a: "joinStep ns ds tables j acc = Inr a"
    and r: "joinLoop ns ds tables js a = Inr acc'"
    by (auto split: sum.splits)
  have "length (resultRows acc') \<le> length (resultRows a)" using r by (rule Cons.IH)
  also have "\<dots> \<le> length (resultRows acc)" using a by (rule length_joinStep_le)
  finally show ?case .
qed

lemma length_joinLoop_LEFT:
  "joinLoop ns ds tables js acc = Inr acc' \<Longrightarrow> \<forall>j\<in>set js. joinType j = LEFT \<Longrightarrow>
   length (resultRows acc') = length (resultRows acc)"
proof (induction js arbitrary: acc)
  case Nil
  then show ?case by simp
next
  case (Cons j js)
  from Cons.prems(1) obtain a where a: "joinStep ns ds tables j acc = Inr a"
    and r: "joinLoop ns ds tables js a = Inr acc'"
    by (auto split: sum.splits)
  have l: "joinType j = LEFT" and ls: "\<forall>j\<in>set js. joinType j = LEFT"
    using Cons.prems(2) by simp_all
  have "length (resultRows acc') = length (resultRows a)" using r ls by (rule Cons.IH)
  also have "\<dots> = length (resultRows acc)" using a l by (rule length_joinStep_LEFT)
  finally show ?case .
qed




lemma buildRightMap_snoc:
  "buildRightMap ns ds c (rs @ [r]) = (buildRightMap ns ds c rs)(String_js ns ds (getv r c) \<mapsto> r)"
  by (simp add: buildRightMap_def)

lemma buildRightMap_last:
  "buildRightMap ns ds c rs k =
     (let ms = filter (\<lambda>r. String_js ns ds (getv r c) = k) rs
      in if ms = [] then None else Some (last ms))"
proof (induction rs rule: rev_induct)
  case Nil show ?case by (simp add: buildRightMap_def)
next
  case (snoc r rs)
  then show ?case by (simp add: buildRightMap_snoc Let_def)
qed

lemma rightMap_matching:
  "buildRightMap ns ds (rightColumn j) (rows rt) k =
     (if matching ns ds j rt k = [] then None else Some (last (matching ns ds j rt k)))"
  by (simp add: buildRightMap_last matching_def joinKeyR_def Let_def)

lemma joinRows_matching:
  "joinRows ns ds j rt (buildRightMap ns ds (rightColumn j) (rows rt)) xs =
     map (\<lambda>l. if matching ns ds j rt (joinKeyL ns ds j l) = [] then mergeNulls rt l
               else mergeMatch rt (last (matching ns ds j rt (joinKeyL ns ds j l))) l)
         (filter (\<lambda>l. joinType j = LEFT \<or> matching ns ds j rt (joinKeyL ns ds j l) \<noteq> []) xs)"
  by (induction xs) (simp_all add: rightMap_matching joinKeyL_def)


lemma getv_setv: "getv (setv k v row) k' = (if k' = k then v else getv row k')"
  by (induction row) (auto simp: getv_def)

lemma drop_prefixed: "drop (Suc (length p)) (prefixed p n) = n"
  by (simp add: prefixed_def)

lemma getv_mergeMatch_aux:
  "getv (fold (\<lambda>col mergedRow. setv (prefixed p (name col)) (getv r (name col)) mergedRow) cs l) k =
     (if k \<in> prefixed p ` name ` set cs then getv r (drop (Suc (length p)) k) else getv l k)"
proof (induction cs arbitrary: l)
  case Nil show ?case by simp
next
  case (Cons c cs)
  show ?case by (auto simp: Cons.IH getv_setv drop_prefixed)
qed

lemma getv_mergeNulls_aux:
  "getv (fold (\<lambda>col mergedRow. setv (prefixed p (name col)) VNull mergedRow) cs l) k =
     (if k \<in> prefixed p ` name ` set cs then VNull else getv l k)"
proof (induction cs arbitrary: l)
  case Nil show ?case by simp
next
  case (Cons c cs)
  show ?case by (auto simp: Cons.IH getv_setv)
qed

lemma getv_mergeMatch_all:
  "getv (mergeMatch rt r l) k =
     (if k \<in> prefixed (tableName rt) ` name ` set (columns rt)
      then getv r (drop (Suc (length (tableName rt))) k) else getv l k)"
  by (simp add: mergeMatch_def getv_mergeMatch_aux)

lemma getv_mergeNulls_all:
  "getv (mergeNulls rt l) k =
     (if k \<in> prefixed (tableName rt) ` name ` set (columns rt) then VNull else getv l k)"
  by (simp add: mergeNulls_def getv_mergeNulls_aux)


lemmas ex_defs = ex_tables_def ex_model_def ex_join_def ex_Orders_def ex_Customers_def
  ex_join_again_def ex_model_twice_def ex_join_missing_def ex_model_nobase_def ex_acc_def
  ex_Customers_dup_def ex_tables_dup_def ex_row_nullkey_def ex_right_nullkey_def
  ex_Customers_null_def ex_tables_null_def no_date_def ex_join_toString_def
  ex_model_toString_def ex_model_skip_def ex_model_nojoin_def

lemmas join_defs = executeDataModel_def joinStep_def joinWith_def getProp_def
  objectPrototypeKeys_def buildRightMap_def getv_def mergeMatch_def mergeNulls_def prefixed_def
  rightColsRenamed_def joinKeyL_def joinKeyR_def matching_def Let_def

text \<open>
  Claim C1 says that the column names of the result are unique for every table
  collection and every model, because the columns of a right table are renamed with the
  table name as prefix. The code does not achieve this: the prefix depends on the table
  name alone, so a model that joins the table Customers twice gets every column of
  Customers twice under the same name.
\<close>

theorem C1_duplicate_columns:
  "map_sum id columnNames (executeDataModel show_nat no_date ex_tables ex_model_twice) =
     Inr [''id'', ''cust'', ''amt'', ''Customers.cust'', ''Customers.tier'',
          ''Customers.cust'', ''Customers.tier'']
   \<and> \<not> distinct [''id'', ''cust'', ''amt'', ''Customers.cust'', ''Customers.tier'',
          ''Customers.cust'', ''Customers.tier'']"
  by (simp add: ex_defs join_defs columnNames_def)

text \<open>
  Where the prefix is enough: the base table's column names are distinct and contain no
  dot, every joined table has distinct column names and a name without a dot, and no two
  joins bring in tables of the same name. Then the column names of the result are
  distinct.
\<close>

lemma resultColumns_joinStep:
  "joinStep ns ds tables j acc = Inr acc' \<Longrightarrow>
   resultColumns acc' =
     resultColumns acc
     @ (case ownTable tables (rightTableId j) of None \<Rightarrow> [] | Some rt \<Rightarrow> rightColsRenamed rt)"
  using joinStep_Inr_cases [of ns ds tables j acc acc']
  by (auto simp: ownTable_def resultColumns_joinWith)

lemma resultColumns_joinLoop:
  "joinLoop ns ds tables js acc = Inr acc' \<Longrightarrow>
   resultColumns acc' =
     resultColumns acc
     @ concat (map rightColsRenamed (List.map_filter (\<lambda>j. ownTable tables (rightTableId j)) js))"
proof (induction js arbitrary: acc)
  case Nil
  then show ?case by (simp add: List.map_filter_simps)
next
  case (Cons j js)
  from Cons.prems obtain a where a: "joinStep ns ds tables j acc = Inr a"
    and r: "joinLoop ns ds tables js a = Inr acc'"
    by (auto split: sum.splits)
  have "resultColumns acc' =
          resultColumns a
          @ concat (map rightColsRenamed (List.map_filter (\<lambda>j. ownTable tables (rightTableId j)) js))"
    using r by (rule Cons.IH)
  then show ?case
    using resultColumns_joinStep [OF a]
    by (cases "ownTable tables (rightTableId j)") (simp_all add: List.map_filter_simps)
qed

lemma name_rightColsRenamed:
  "map name (rightColsRenamed rt) = map (prefixed (tableName rt)) (map name (columns rt))"
  by (simp add: rightColsRenamed_def comp_def)

lemma takeWhile_prefixed:
  "CHR ''.'' \<notin> set p \<Longrightarrow> takeWhile (\<lambda>c. c \<noteq> CHR ''.'') (prefixed p n) = p"
  by (auto simp: prefixed_def takeWhile_tail)

lemma prefixed_inject:
  assumes "prefixed p n = prefixed p' n'" and "CHR ''.'' \<notin> set p" and "CHR ''.'' \<notin> set p'"
  shows "p = p' \<and> n = n'"
proof -
  have "p = p'" using assms takeWhile_prefixed [of p n] takeWhile_prefixed [of p' n'] by simp
  then show ?thesis using assms(1) by (simp add: prefixed_def)
qed

lemma distinct_prefixed: "distinct ns \<Longrightarrow> distinct (map (prefixed p) ns)"
  by (simp add: distinct_map inj_on_def prefixed_def)

lemma distinct_renamed_names:
  assumes "distinct (map tableName rts)"
      and "\<forall>rt\<in>set rts. CHR ''.'' \<notin> set (tableName rt) \<and> distinct (map name (columns rt))"
  shows "distinct (concat (map (\<lambda>rt. map name (rightColsRenamed rt)) rts))"
  using assms
proof (induction rts)
  case Nil
  show ?case by simp
next
  case (Cons rt rts)
  have "distinct (map name (columns rt))" using Cons.prems(2) by simp
  then have d1: "distinct (map name (rightColsRenamed rt))"
    unfolding name_rightColsRenamed by (rule distinct_prefixed)
  have d2: "distinct (concat (map (\<lambda>rt. map name (rightColsRenamed rt)) rts))"
    using Cons.IH Cons.prems by simp
  have d3: "set (map name (rightColsRenamed rt))
              \<inter> set (concat (map (\<lambda>rt. map name (rightColsRenamed rt)) rts)) = {}"
  proof (rule ccontr)
    assume "\<not> ?thesis"
    then obtain x rt' where x1: "x \<in> set (map name (rightColsRenamed rt))"
      and rt': "rt' \<in> set rts" and x2: "x \<in> set (map name (rightColsRenamed rt'))"
      by auto
    from x1 obtain n where n: "x = prefixed (tableName rt) n"
      by (auto simp: name_rightColsRenamed)
    from x2 obtain n' where n': "x = prefixed (tableName rt') n'"
      by (auto simp: name_rightColsRenamed)
    have "tableName rt = tableName rt'"
      using prefixed_inject [of "tableName rt" n "tableName rt'" n'] n n' Cons.prems(2) rt'
      by simp
    then show False using Cons.prems(1) rt' by auto
  qed
  from d1 d2 d3 show ?case by simp
qed

lemma executeDataModel_Inr:
  assumes "executeDataModel ns ds tables model = Inr out"
  shows "\<exists>bt acc. getProp tables (baseTableId model) = Own bt
           \<and> joinLoop ns ds tables (joins model)
                \<lparr>resultRows = rows bt, resultColumns = columns bt,
                 currentDimensions = dimensions bt\<rparr> = Inr acc
           \<and> out = \<lparr>fileName = modelFileName bt (length (joins model)),
                     rows = resultRows acc, columns = resultColumns acc,
                     rowCount = length (resultRows acc),
                     primaryDateColumn = primaryDateColumn bt,
                     primaryMeasureColumn = primaryMeasureColumn bt,
                     dimensions = currentDimensions acc\<rparr>"
  using assms
  by (auto simp: executeDataModel_def modelFileName_def split: lookup.splits sum.splits)

lemma executeDataModel_columns_distinct:
  assumes out: "executeDataModel ns ds tables model = Inr out"
      and base: "getProp tables (baseTableId model) = Own bt"
      and bd: "distinct (map name (columns bt))"
      and bdot: "\<forall>n\<in>set (map name (columns bt)). CHR ''.'' \<notin> set n"
      and td: "distinct (map tableName (joinedTables tables model))"
      and tdot: "\<forall>rt\<in>set (joinedTables tables model).
                   CHR ''.'' \<notin> set (tableName rt) \<and> distinct (map name (columns rt))"
  shows "distinct (map name (columns out))"
proof -
  let ?rts = "joinedTables tables model"
  from executeDataModel_Inr [OF out] base obtain acc where
    l: "joinLoop ns ds tables (joins model)
          \<lparr>resultRows = rows bt, resultColumns = columns bt,
           currentDimensions = dimensions bt\<rparr> = Inr acc"
    and c: "columns out = resultColumns acc"
    by auto
  have cols: "columns out = columns bt @ concat (map rightColsRenamed ?rts)"
    using resultColumns_joinLoop [OF l] c by (simp add: joinedTables_def)
  have names: "map name (columns out) =
     map name (columns bt) @ concat (map (\<lambda>rt. map name (rightColsRenamed rt)) ?rts)"
    by (simp add: cols map_concat comp_def)
  have d2: "distinct (concat (map (\<lambda>rt. map name (rightColsRenamed rt)) ?rts))"
    using td tdot by (rule distinct_renamed_names)
  have d3: "set (map name (columns bt))
              \<inter> set (concat (map (\<lambda>rt. map name (rightColsRenamed rt)) ?rts)) = {}"
  proof (rule ccontr)
    assume "\<not> ?thesis"
    then obtain x rt where x1: "x \<in> set (map name (columns bt))"
      and rt: "rt \<in> set ?rts" and x2: "x \<in> set (map name (rightColsRenamed rt))"
      by auto
    from x2 obtain n where "x = prefixed (tableName rt) n"
      by (auto simp: name_rightColsRenamed)
    then have "CHR ''.'' \<in> set x" by (simp add: prefixed_def)
    then show False using bdot x1 by blast
  qed
  show ?thesis unfolding names using bd d2 d3 by simp
qed

text \<open>
  Claim C2. Whenever \<open>executeDataModel\<close> returns a dataset, the base table is an own
  entry of the collection, the rowCount of the result is the number of its rows, and that
  number never exceeds the number of rows of the base table, whatever the join types;
  when all joins are LEFT it equals it. A join step that returns never adds rows, and a
  LEFT step keeps their number. A step over an own right table returns, and its rows are
  the accumulator's rows in order: a row whose key is the key of some right row is merged
  with the last such right row; a row without such a right row is filled with nulls if
  the join is LEFT and dropped otherwise, and only such rows are dropped. The null fill
  holds null under every prefixed name of a right column and the left row's value under
  every other name; the merge holds the right row's value of the column under every
  prefixed name and the left row's value under every other name.
\<close>

theorem C2_row_count:
  assumes "executeDataModel ns ds tables model = Inr out"
  shows "(\<exists>baseTable. getProp tables (baseTableId model) = Own baseTable
            \<and> rowCount out = length (rows out)
            \<and> length (rows out) \<le> length (rows baseTable)
            \<and> ((\<forall>j\<in>set (joins model). joinType j = LEFT) \<longrightarrow>
                  length (rows out) = length (rows baseTable)))
         \<and> (joinStep ns ds tables j acc = Inr acc' \<longrightarrow>
               length (resultRows acc') \<le> length (resultRows acc)
               \<and> (joinType j = LEFT \<longrightarrow> length (resultRows acc') = length (resultRows acc)))
         \<and> (getProp tables (rightTableId j) = Own rt \<longrightarrow>
               (\<exists>a. joinStep ns ds tables j acc = Inr a
                  \<and> resultRows a =
                      map (\<lambda>l. if matching ns ds j rt (joinKeyL ns ds j l) = []
                                then mergeNulls rt l
                                else mergeMatch rt (last (matching ns ds j rt (joinKeyL ns ds j l))) l)
                          (filter (\<lambda>l. joinType j = LEFT
                                        \<or> matching ns ds j rt (joinKeyL ns ds j l) \<noteq> [])
                                  (resultRows acc))))
         \<and> getv (mergeNulls rt l) k =
              (if k \<in> prefixed (tableName rt) ` name ` set (columns rt) then VNull else getv l k)
         \<and> getv (mergeMatch rt r l) k =
              (if k \<in> prefixed (tableName rt) ` name ` set (columns rt)
               then getv r (drop (Suc (length (tableName rt))) k) else getv l k)"
proof -
  from executeDataModel_Inr [OF assms] obtain bt a where
    b: "getProp tables (baseTableId model) = Own bt"
    and l: "joinLoop ns ds tables (joins model)
          \<lparr>resultRows = rows bt, resultColumns = columns bt,
           currentDimensions = dimensions bt\<rparr> = Inr a"
    and r: "rows out = resultRows a" and c: "rowCount out = length (resultRows a)"
    by auto
  have c': "rowCount out = length (rows out)" using r c by simp
  have le: "length (rows out) \<le> length (rows bt)"
    using length_joinLoop_le [OF l] by (simp add: r)
  have eq: "(\<forall>j\<in>set (joins model). joinType j = LEFT) \<longrightarrow>
              length (rows out) = length (rows bt)"
    using length_joinLoop_LEFT [OF l] by (simp add: r)
  have top: "\<exists>baseTable. getProp tables (baseTableId model) = Own baseTable
            \<and> rowCount out = length (rows out)
            \<and> length (rows out) \<le> length (rows baseTable)
            \<and> ((\<forall>j\<in>set (joins model). joinType j = LEFT) \<longrightarrow>
                  length (rows out) = length (rows baseTable))"
    by (intro exI [of _ bt] conjI b c' le eq)
  have s1: "joinStep ns ds tables j acc = Inr acc' \<longrightarrow>
               length (resultRows acc') \<le> length (resultRows acc)
               \<and> (joinType j = LEFT \<longrightarrow> length (resultRows acc') = length (resultRows acc))"
    using length_joinStep_le [of ns ds tables j acc acc']
      length_joinStep_LEFT [of ns ds tables j acc acc'] by blast
  have s2: "getProp tables (rightTableId j) = Own rt \<longrightarrow>
               (\<exists>a. joinStep ns ds tables j acc = Inr a
                  \<and> resultRows a =
                      map (\<lambda>l. if matching ns ds j rt (joinKeyL ns ds j l) = []
                                then mergeNulls rt l
                                else mergeMatch rt (last (matching ns ds j rt (joinKeyL ns ds j l))) l)
                          (filter (\<lambda>l. joinType j = LEFT
                                        \<or> matching ns ds j rt (joinKeyL ns ds j l) \<noteq> [])
                                  (resultRows acc)))"
    by (simp add: joinStep_Own resultRows_joinWith joinRows_matching)
  show ?thesis
    by (intro conjI top s1 s2 getv_mergeNulls_all getv_mergeMatch_all)
qed

theorem C2_row_count_witness:
  "executeDataModel show_nat no_date ex_tables (ex_model LEFT) =
     Inr \<lparr>fileName = ''Model: Orders + 1 joins'',
          rows = [[(''id'', VNumber 1), (''cust'', VString ''A''), (''amt'', VNumber 100),
                   (''Customers.cust'', VString ''A''), (''Customers.tier'', VString ''gold'')],
                  [(''id'', VNumber 2), (''cust'', VString ''B''), (''amt'', VNumber 50),
                   (''Customers.cust'', VNull), (''Customers.tier'', VNull)]],
          columns = columns ex_Orders @ rightColsRenamed ex_Customers,
          rowCount = 2, primaryDateColumn = None, primaryMeasureColumn = Some ''id'',
          dimensions = []\<rparr>
   \<and> map joinType (joins (ex_model LEFT)) = [LEFT]
   \<and> length (rows ex_Orders) = 2
   \<and> getProp ex_tables (baseTableId (ex_model LEFT)) = Own ex_Orders"
proof -
  have h: "executeDataModel show_nat no_date ex_tables (ex_model LEFT) =
     Inr \<lparr>fileName = ''Model: Orders + 1 joins'',
          rows = [[(''id'', VNumber 1), (''cust'', VString ''A''), (''amt'', VNumber 100),
                   (''Customers.cust'', VString ''A''), (''Customers.tier'', VString ''gold'')],
                  [(''id'', VNumber 2), (''cust'', VString ''B''), (''amt'', VNumber 50),
                   (''Customers.cust'', VNull), (''Customers.tier'', VNull)]],
          columns = columns ex_Orders @ rightColsRenamed ex_Customers,
          rowCount = 2, primaryDateColumn = None, primaryMeasureColumn = Some ''id'',
          dimensions = []\<rparr>"
    by (simp add: ex_defs join_defs show_nat.simps digit_char_def)
  have m: "map joinType (joins (ex_model LEFT)) = [LEFT]" by (simp add: ex_defs)
  have n: "length (rows ex_Orders) = 2" by (simp add: ex_defs)
  from C2_row_count [OF h, of "ex_join LEFT" ex_acc ex_acc ex_Customers "[]" "[]" "[]"]
  obtain bt where "getProp ex_tables (baseTableId (ex_model LEFT)) = Own bt" by blast
  moreover have "getProp ex_tables (baseTableId (ex_model LEFT)) = Own ex_Orders"
    by (simp add: ex_defs getProp_def)
  ultimately show ?thesis using h m n by simp
qed









subsection \<open>Column profiling\<close>

lemma columnValues_Cons: "columnValues key (r # rws) = getv r key # columnValues key rws"
  by (simp add: columnValues_def)

lemma presentValues_Cons:
  "presentValues key (r # rws) =
     (if isAbsent (getv r key) then presentValues key rws else getv r key # presentValues key rws)"
  by (simp add: presentValues_def columnValues_def)

lemma presentValues_Nil: "presentValues key [] = []"
  by (simp add: presentValues_def columnValues_def)

lemma profileStep_absent:
  "isAbsent (getv r key) \<Longrightarrow> profileStep isN isD key r st = st\<lparr>nulls := nulls st + 1\<rparr>"
  by (simp add: profileStep_def)

lemma profileStep_present:
  "\<not> isAbsent (getv r key) \<Longrightarrow>
   profileStep isN isD key r st =
     st\<lparr>vals := vals st @ [getv r key],
        distinctSet := setAdd (distinctSet st) (getv r key),
        typeCounts := (typeCounts st)
          (classify isN isD (getv r key) := typeCounts st (classify isN isD (getv r key)) + 1)\<rparr>"
  by (simp add: profileStep_def Let_def)

lemma fold_profileStep:
  fixes st :: "('n, 'd) ProfileState"
  shows "fold (profileStep isN isD key) rws st =
     st\<lparr>nulls := nulls st + length (filter isAbsent (columnValues key rws)),
        vals := vals st @ presentValues key rws,
        distinctSet := fold (\<lambda>v s. setAdd s v) (presentValues key rws) (distinctSet st),
        typeCounts := (\<lambda>t. typeCounts st t + countAs isN isD t (presentValues key rws))\<rparr>"
proof (induction rws arbitrary: st)
  case Nil
  show ?case by (simp add: columnValues_def presentValues_Nil countAs_def)
next
  case (Cons r rws)
  show ?case
  proof (cases "isAbsent (getv r key)")
    case True
    then show ?thesis
      by (simp add: Cons.IH profileStep_absent presentValues_Cons columnValues_Cons)
  next
    case False
    then show ?thesis
      by (simp add: Cons.IH profileStep_present presentValues_Cons columnValues_Cons
            countAs_def fun_eq_iff)
  qed
qed

lemma set_fold_setAdd: "set (fold (\<lambda>v s. setAdd s v) vs s) = set s \<union> set vs"
  by (induction vs arbitrary: s) (auto simp: setAdd_def)

lemma distinct_fold_setAdd: "distinct s \<Longrightarrow> distinct (fold (\<lambda>v s. setAdd s v) vs s)"
  by (induction vs arbitrary: s) (auto simp: setAdd_def)

lemma length_fold_setAdd_empty: "length (fold (\<lambda>v s. setAdd s v) vs []) = card (set vs)"
proof -
  have "distinct (fold (\<lambda>v s. setAdd s v) vs [])" by (simp add: distinct_fold_setAdd)
  then have "length (fold (\<lambda>v s. setAdd s v) vs []) = card (set (fold (\<lambda>v s. setAdd s v) vs []))"
    by (simp add: distinct_card)
  then show ?thesis by (simp add: set_fold_setAdd)
qed

lemma analyzeColumn_fields:
  "nullCount (analyzeColumn isN isD key rws) = length (filter isAbsent (columnValues key rws))"
  "uniqueCount (analyzeColumn isN isD key rws) = card (set (presentValues key rws))"
  "type (analyzeColumn isN isD key rws) =
     decideType (\<lambda>t. countAs isN isD t (presentValues key rws)) (length (presentValues key rws))"
  "name (analyzeColumn isN isD key rws) = key"
  by (simp_all add: analyzeColumn_def Let_def fold_profileStep profileInit_def length_fold_setAdd_empty)


lemma analyzeSheetData_succeeds:
  "rawRows \<noteq> [] \<Longrightarrow> \<exists>ds. analyzeSheetData isN isD sc rawRows fName = Inr ds"
  by (cases rawRows) (simp_all add: analyzeSheetData_def Let_def)

lemma analyzeSheetData_dimensions:
  "rawRows = row0 # rest \<Longrightarrow>
   map_sum id dimensions (analyzeSheetData isN isD sc rawRows fName) =
     Inr (map name (sort_key uniqueCount (filter (isDimension (length rawRows))
            (map (\<lambda>key. analyzeColumn isN isD key rawRows) (map fst row0)))))"
  by (simp add: analyzeSheetData_def Let_def)

lemma analyzeColumn_uniqueCount_remdups:
  "uniqueCount (analyzeColumn isN isD key rws) = length (remdups (presentValues key rws))"
  by (simp add: analyzeColumn_fields(2) List.card_set)

lemmas profile_eval = analyzeColumn_fields(1,3,4) analyzeColumn_uniqueCount_remdups
  decideType_def isAbsent_def getv_def columnValues_def presentValues_def countAs_def

lemmas ex_analyze_defs = ex_isNumeric_def ex_isDateString_def ex_rows_80_def ex_rows_const_def
  ex_rows_dims_def

text \<open>
  Claim C3, as amended. The type of a profiled column follows from the shares of the
  present values that count as DATE, NUMBER and BOOLEAN, tested in this order, and every
  threshold is strict: more than 80% DATE gives DATE; otherwise more than 80% NUMBER
  gives NUMBER; otherwise more than 90% BOOLEAN gives BOOLEAN; otherwise STRING.
\<close>

theorem C3_type_thresholds:
  "type (analyzeColumn isN isD key rws) =
     (if real (countAs isN isD DATE (presentValues key rws))
           > 0.8 * real (length (presentValues key rws))
        then DATE
      else if real (countAs isN isD NUMBER (presentValues key rws))
           > 0.8 * real (length (presentValues key rws))
        then NUMBER
      else if real (countAs isN isD BOOLEAN (presentValues key rws))
           > 0.9 * real (length (presentValues key rws))
        then BOOLEAN
      else STRING)"
  by (simp add: analyzeColumn_fields decideType_def mult.commute)

text \<open>
  Claim C3 as stated fails: with five present values of which exactly four (80%) count
  as NUMBER and none as DATE, the column is typed STRING, not NUMBER.
\<close>

theorem C3_exactly_80_percent_counterexample:
  "map (classify ex_isNumeric ex_isDateString) (presentValues ''v'' ex_rows_80)
      = [NUMBER, NUMBER, NUMBER, NUMBER, STRING]
   \<and> type (analyzeColumn ex_isNumeric ex_isDateString ''v'' ex_rows_80) = STRING"
  by (simp add: profile_eval ex_analyze_defs)

text \<open>
  Claim C4, as amended. The dimensions of an analyzed sheet are the names of exactly the
  STRING columns whose uniqueCount is at most 100 and below 0.9 times the row count,
  in ascending order of uniqueCount. There is no lower bound on uniqueCount.
\<close>

theorem C4_dimensions:
  assumes "analyzeSheetData isN isD sc rawRows fName = Inr ds"
  shows "\<exists>cs. dimensions ds = map name cs
           \<and> mset cs = mset (filter (\<lambda>c. type c = STRING \<and> uniqueCount c \<le> 100
                                         \<and> real (uniqueCount c) < 0.9 * real (length rawRows))
                                   (columns ds))
           \<and> sorted (map uniqueCount cs)"
proof -
  obtain row0 rest where rr: "rawRows = row0 # rest"
    using assms by (cases rawRows) (simp_all add: analyzeSheetData_def)
  let ?cols = "map (\<lambda>key. analyzeColumn isN isD key rawRows) (map fst row0)"
  let ?cs = "sort_key uniqueCount (filter (isDimension (length rawRows)) ?cols)"
  have c: "columns ds = ?cols" and d: "dimensions ds = map name ?cs"
    using assms unfolding rr analyzeSheetData_def Let_def by auto
  have f: "isDimension (length rawRows) =
             (\<lambda>c. type c = STRING \<and> uniqueCount c \<le> 100
                    \<and> real (uniqueCount c) < 0.9 * real (length rawRows))"
    by (simp add: isDimension_def fun_eq_iff mult.commute)
  have "mset ?cs = mset (filter (isDimension (length rawRows)) (columns ds))"
    by (simp add: c)
  moreover have "sorted (map uniqueCount ?cs)" by simp
  ultimately show ?thesis using d unfolding f by blast
qed

theorem C4_dimensions_witness:
  "\<exists>ds (cs :: (nat, unit) ColumnProfile list).
      analyzeSheetData ex_isNumeric ex_isDateString score ex_rows_dims ''Sheet1'' = Inr ds
      \<and> dimensions ds = [''kind'', ''region'']
      \<and> dimensions ds = map name cs
      \<and> sorted (map uniqueCount cs)"
proof -
  have l: "length ex_rows_dims = 5"
    and h: "ex_rows_dims = hd ex_rows_dims # tl ex_rows_dims"
    and k: "map fst (hd ex_rows_dims) = [''region'', ''kind'', ''n'']"
    by (simp_all add: ex_rows_dims_def)
  have region: "type (analyzeColumn ex_isNumeric ex_isDateString ''region'' ex_rows_dims) = STRING
      \<and> uniqueCount (analyzeColumn ex_isNumeric ex_isDateString ''region'' ex_rows_dims) = 3"
    by (simp add: profile_eval ex_analyze_defs)
  have kind: "type (analyzeColumn ex_isNumeric ex_isDateString ''kind'' ex_rows_dims) = STRING
      \<and> uniqueCount (analyzeColumn ex_isNumeric ex_isDateString ''kind'' ex_rows_dims) = 2"
    by (simp add: profile_eval ex_analyze_defs)
  have n: "type (analyzeColumn ex_isNumeric ex_isDateString ''n'' ex_rows_dims) = NUMBER"
    by (simp add: profile_eval ex_analyze_defs)
  have dims: "map_sum id dimensions
                (analyzeSheetData ex_isNumeric ex_isDateString score ex_rows_dims ''Sheet1'')
              = Inr [''kind'', ''region'']"
    by (simp add: analyzeSheetData_dimensions [OF h] k l isDimension_def region kind n
          analyzeColumn_fields(4))
  obtain ds where ds: "analyzeSheetData ex_isNumeric ex_isDateString score ex_rows_dims ''Sheet1'' = Inr ds"
    using analyzeSheetData_succeeds [of ex_rows_dims] l by fastforce
  from C4_dimensions [OF ds] obtain cs :: "(nat, unit) ColumnProfile list" where
    "dimensions ds = map name cs" "sorted (map uniqueCount cs)" by blast
  moreover have "dimensions ds = [''kind'', ''region'']" using dims ds by simp
  ultimately show ?thesis using ds by blast
qed

text \<open>
  Claim C4 as stated fails: a STRING column holding one repeated value (uniqueCount 1)
  is a dimension.
\<close>

theorem C4_single_value_counterexample:
  "map_sum id dimensions
     (analyzeSheetData ex_isNumeric ex_isDateString score ex_rows_const ''Sheet1'') = Inr [''c'']
   \<and> type (analyzeColumn ex_isNumeric ex_isDateString ''c'' ex_rows_const) = STRING
   \<and> uniqueCount (analyzeColumn ex_isNumeric ex_isDateString ''c'' ex_rows_const) = 1"
proof -
  have l: "length ex_rows_const = 3"
    and h: "ex_rows_const = hd ex_rows_const # tl ex_rows_const"
    and k: "map fst (hd ex_rows_const) = [''k'', ''c'']"
    by (simp_all add: ex_rows_const_def)
  have c: "type (analyzeColumn ex_isNumeric ex_isDateString ''c'' ex_rows_const) = STRING
      \<and> uniqueCount (analyzeColumn ex_isNumeric ex_isDateString ''c'' ex_rows_const) = 1"
    by (simp add: profile_eval ex_analyze_defs)
  have k': "type (analyzeColumn ex_isNumeric ex_isDateString ''k'' ex_rows_const) = STRING
      \<and> uniqueCount (analyzeColumn ex_isNumeric ex_isDateString ''k'' ex_rows_const) = 3"
    by (simp add: profile_eval ex_analyze_defs)
  have "map_sum id dimensions
          (analyzeSheetData ex_isNumeric ex_isDateString score ex_rows_const ''Sheet1'') = Inr [''c'']"
    by (simp add: analyzeSheetData_dimensions [OF h] k l isDimension_def c k'
          analyzeColumn_fields(4))
  then show ?thesis using c by simp
qed

text \<open>
  Claim C5. In the profile of any column over any rows, nullCount plus the number of rows
  with a present value (not null, not undefined, not the empty string) is the number of
  rows, and uniqueCount, the number of distinct present values, is at most the number of
  rows with a present value.
\<close>

theorem C5_null_and_unique_counts:
  "nullCount (analyzeColumn isN isD key rws) + length (presentValues key rws) = length rws
   \<and> uniqueCount (analyzeColumn isN isD key rws) \<le> length (presentValues key rws)
   \<and> uniqueCount (analyzeColumn isN isD key rws) = card (set (presentValues key rws))"
proof -
  have "length (filter isAbsent (columnValues key rws)) + length (presentValues key rws)
          = length (columnValues key rws)"
    unfolding presentValues_def by (rule sum_length_filter_compl)
  then show ?thesis
    by (simp add: analyzeColumn_fields card_length) (simp add: columnValues_def)
qed

subsection \<open>Join suggestions\<close>

lemma strategy1_alt:
  "strategy1 uuid baseTable dimTable =
     fold (\<lambda>baseCol. fold (s1inner uuid dimTable baseCol) (columns dimTable)) (columns baseTable)"
  by (simp add: strategy1_def s1inner_def)

lemma inner_nomatch:
  "\<forall>dc\<in>set dcs. toLowerCase (name bc) \<noteq> toLowerCase (name dc) \<Longrightarrow>
   fold (s1inner uuid dimTable bc) dcs s = s"
  by (induction dcs arbitrary: s) (auto simp: s1inner_def split: prod.splits)

lemma outer_nomatch:
  "\<forall>bc\<in>set bcs. \<forall>dc\<in>set dcs. toLowerCase (name bc) \<noteq> toLowerCase (name dc) \<Longrightarrow>
   fold (\<lambda>baseCol. fold (s1inner uuid dimTable baseCol) dcs) bcs s = s"
  by (induction bcs arbitrary: s) (simp_all add: inner_nomatch)

lemma strategy1_nomatch:
  "\<forall>bc\<in>set (columns baseTable). \<forall>dc\<in>set (columns dimTable).
      toLowerCase (name bc) \<noteq> toLowerCase (name dc) \<Longrightarrow>
   strategy1 uuid baseTable dimTable s = s"
  by (simp add: strategy1_alt outer_nomatch)

lemma inner_LEFT:
  "leftOrNone (fst s) \<Longrightarrow> leftOrNone (fst (fold (s1inner uuid dimTable bc) dcs s))"
  by (induction dcs arbitrary: s) (auto simp: s1inner_def leftOrNone_def split: prod.splits)

lemma outer_LEFT:
  "leftOrNone (fst s) \<Longrightarrow>
   leftOrNone (fst (fold (\<lambda>baseCol. fold (s1inner uuid dimTable baseCol) dcs) bcs s))"
  by (induction bcs arbitrary: s) (simp_all add: inner_LEFT)

lemma strategy1_LEFT: "leftOrNone (fst (strategy1 uuid baseTable dimTable (None, k)))"
proof -
  have "leftOrNone (fst (None :: JoinConfig option, k))" by (simp add: leftOrNone_def)
  then show ?thesis unfolding strategy1_alt by (rule outer_LEFT)
qed

lemma strategy2_LEFT: "leftOrNone (fst (strategy2 uuid baseTable dimTable k))"
  by (simp add: strategy2_def leftOrNone_def split: option.splits)

lemma bestJoinFor_LEFT: "leftOrNone (fst (bestJoinFor uuid baseTable dimTable k))"
proof (cases "strategy1 uuid baseTable dimTable (None, k)")
  case (Pair b k')
  show ?thesis
  proof (cases b)
    case None
    then show ?thesis using Pair by (simp add: bestJoinFor_def strategy2_LEFT)
  next
    case (Some j)
    then show ?thesis
      using Pair strategy1_LEFT [of uuid baseTable dimTable k] by (simp add: bestJoinFor_def)
  qed
qed

lemma suggestStep_LEFT:
  "\<forall>j\<in>set (fst s). joinType j = LEFT \<Longrightarrow>
   \<forall>j\<in>set (fst (suggestStep uuid baseTable dimTable s)). joinType j = LEFT"
  using bestJoinFor_LEFT [of uuid baseTable dimTable "snd s"]
  by (cases s) (auto simp: suggestStep_def leftOrNone_def split: prod.splits option.splits)

lemma fold_suggestStep_LEFT:
  "\<forall>j\<in>set (fst s). joinType j = LEFT \<Longrightarrow>
   \<forall>j\<in>set (fst (fold (suggestStep uuid baseTable) ds s)). joinType j = LEFT"
proof (induction ds arbitrary: s)
  case Nil then show ?case by simp
next
  case (Cons d ds)
  show ?case using Cons.IH [OF suggestStep_LEFT [OF Cons.prems]] by simp
qed

lemma suggestJoins_LEFT:
  assumes "suggestJoins uuid baseId tables = Inr js"
  shows "\<forall>j\<in>set js. joinType j = LEFT"
proof (cases "getProp tables baseId")
  case (Own baseTable)
  have "\<forall>j\<in>set (fst (fold (suggestStep uuid baseTable) (potentialDimensions baseId tables)
                          ([], 0))). joinType j = LEFT"
    by (rule fold_suggestStep_LEFT) simp
  then show ?thesis using Own assms by (auto simp: suggestJoins_def)
next
  case Inherited
  then show ?thesis using assms by (auto simp: suggestJoins_def split: if_splits)
next
  case Absent
  then show ?thesis using assms by (auto simp: suggestJoins_def)
qed

lemma suggestStep_prefix:
  "suggestStep uuid baseTable d (sugg, k) =
     (sugg @ fst (suggestStep uuid baseTable d ([], k)), snd (suggestStep uuid baseTable d ([], k)))"
  by (simp add: suggestStep_def split: prod.splits option.splits)

lemma fold_suggestStep_prefix:
  "fold (suggestStep uuid baseTable) ds (sugg, k) =
     (sugg @ fst (fold (suggestStep uuid baseTable) ds ([], k)),
      snd (fold (suggestStep uuid baseTable) ds ([], k)))"
proof (induction ds arbitrary: sugg k)
  case Nil show ?case by simp
next
  case (Cons d ds)
  obtain a k' where s: "suggestStep uuid baseTable d ([], k) = (a, k')" by fastforce
  have "fold (suggestStep uuid baseTable) (d # ds) (sugg, k) =
          fold (suggestStep uuid baseTable) ds (sugg @ a, k')"
    using suggestStep_prefix [of uuid baseTable d sugg k] s by simp
  also have "\<dots> = ((sugg @ a) @ fst (fold (suggestStep uuid baseTable) ds ([], k')),
                    snd (fold (suggestStep uuid baseTable) ds ([], k')))"
    by (rule Cons.IH)
  finally show ?case
    using s Cons.IH [of a k'] by simp
qed

lemma strategy2_fk:
  assumes "find (isIdColumn dimTable) (columns dimTable) = Some dc"
      and "nearUnique dc dimTable"
      and "find (isForeignKey dimTable) (columns baseTable) = Some bc"
  shows "strategy2 uuid baseTable dimTable k =
           (Some \<lparr>id_join = uuid k, rightTableId = id_table dimTable, leftColumn = name bc,
                  rightColumn = name dc, joinType = LEFT\<rparr>, Suc k)"
  using assms by (simp add: strategy2_def)

lemma bestJoinFor_fk:
  assumes "\<forall>bc\<in>set (columns baseTable). \<forall>dc\<in>set (columns dimTable).
             toLowerCase (name bc) \<noteq> toLowerCase (name dc)"
      and "find (isIdColumn dimTable) (columns dimTable) = Some dc"
      and "nearUnique dc dimTable"
      and "find (isForeignKey dimTable) (columns baseTable) = Some bc"
  shows "bestJoinFor uuid baseTable dimTable k =
           (Some \<lparr>id_join = uuid k, rightTableId = id_table dimTable, leftColumn = name bc,
                  rightColumn = name dc, joinType = LEFT\<rparr>, Suc k)"
  using strategy1_nomatch [OF assms(1)] strategy2_fk [OF assms(2,3,4)]
  by (simp add: bestJoinFor_def)

text \<open>
  Claim C8, as amended. Take a base table and another table of the collection, named
  Customers, such that no column name of the one equals a column name of the other up to
  case. If the first column of Customers whose lower-cased name is \<open>id\<close>,
  \<open>customers_id\<close> or \<open>customer_id\<close> is named \<open>id\<close> and has a uniqueness ratio
  above 0.9, and the first column of the base table whose lower-cased name contains
  \<open>customers\<close> or equals \<open>customer_id\<close> is named \<open>customer_id\<close>, then
  \<open>suggestJoins\<close> emits exactly one JoinConfig for that table, between the suggestions
  for the tables before it and those for the tables after it, with leftColumn
  \<open>customer_id\<close>, rightColumn \<open>id\<close> and joinType LEFT. Every JoinConfig that
  \<open>suggestJoins\<close> emits has joinType LEFT.
\<close>

theorem C8_foreign_key_suggestion:
  assumes base: "map_of tables baseId = Some baseTable"
      and dims: "potentialDimensions baseId tables = pre @ dimTable # post"
      and tn: "tableName dimTable = ''Customers''"
      and nomatch: "\<forall>bc\<in>set (columns baseTable). \<forall>dc\<in>set (columns dimTable).
                      toLowerCase (name bc) \<noteq> toLowerCase (name dc)"
      and idcol: "find (\<lambda>c. toLowerCase (name c) = ''id'' \<or> toLowerCase (name c) = ''customers_id''
                            \<or> toLowerCase (name c) = ''customer_id'') (columns dimTable) = Some dc"
      and idname: "name dc = ''id''"
      and uniq: "nearUnique dc dimTable"
      and fk: "find (\<lambda>c. includesStr (toLowerCase (name c)) ''customers''
                          \<or> toLowerCase (name c) = ''customer_id'') (columns baseTable) = Some bc"
      and fkname: "name bc = ''customer_id''"
      and k: "k = snd (fold (suggestStep uuid baseTable) pre ([], 0))"
  shows "suggestJoins uuid baseId tables =
           Inr (fst (fold (suggestStep uuid baseTable) pre ([], 0))
                @ [\<lparr>id_join = uuid k, rightTableId = id_table dimTable,
                     leftColumn = ''customer_id'', rightColumn = ''id'', joinType = LEFT\<rparr>]
                @ fst (fold (suggestStep uuid baseTable) post ([], Suc k)))
         \<and> (\<forall>js. suggestJoins uuid' baseId' tables' = Inr js \<longrightarrow>
                (\<forall>j\<in>set js. joinType j = LEFT))"
proof -
  have lt: "toLowerCase (tableName dimTable) = ''customers''"
    by (simp add: tn toLowerCase_def lowerChar_def)
  have idc: "isIdColumn dimTable = (\<lambda>c. toLowerCase (name c) = ''id'' \<or> toLowerCase (name c) = ''customers_id''
                            \<or> toLowerCase (name c) = ''customer_id'')"
    by (simp add: isIdColumn_def lt fun_eq_iff)
  have fkc: "isForeignKey dimTable = (\<lambda>c. includesStr (toLowerCase (name c)) ''customers''
                          \<or> toLowerCase (name c) = ''customer_id'')"
    by (simp add: isForeignKey_def lt fun_eq_iff)
  have best: "bestJoinFor uuid baseTable dimTable k =
           (Some \<lparr>id_join = uuid k, rightTableId = id_table dimTable, leftColumn = ''customer_id'',
                  rightColumn = ''id'', joinType = LEFT\<rparr>, Suc k)"
    using bestJoinFor_fk [OF nomatch, of dc bc uuid k] idcol uniq fk
    by (simp add: idc fkc idname fkname)
  obtain a where a: "fold (suggestStep uuid baseTable) pre ([], 0) = (a, k)"
    using k by (cases "fold (suggestStep uuid baseTable) pre ([], 0)") simp
  have "fold (suggestStep uuid baseTable) (pre @ dimTable # post) ([], 0) =
          fold (suggestStep uuid baseTable) post
            (a @ [\<lparr>id_join = uuid k, rightTableId = id_table dimTable, leftColumn = ''customer_id'',
                  rightColumn = ''id'', joinType = LEFT\<rparr>], Suc k)"
    by (simp add: a suggestStep_def best)
  also have "\<dots> =
          ((a @ [\<lparr>id_join = uuid k, rightTableId = id_table dimTable, leftColumn = ''customer_id'',
                  rightColumn = ''id'', joinType = LEFT\<rparr>])
            @ fst (fold (suggestStep uuid baseTable) post ([], Suc k)),
           snd (fold (suggestStep uuid baseTable) post ([], Suc k)))"
    by (rule fold_suggestStep_prefix)
  finally have "fst (fold (suggestStep uuid baseTable) (pre @ dimTable # post) ([], 0)) =
          a @ [\<lparr>id_join = uuid k, rightTableId = id_table dimTable, leftColumn = ''customer_id'',
                  rightColumn = ''id'', joinType = LEFT\<rparr>]
            @ fst (fold (suggestStep uuid baseTable) post ([], Suc k))"
    by simp
  moreover have "getProp tables baseId = Own baseTable"
    using base by (simp add: getProp_def)
  ultimately show ?thesis
    using dims a suggestJoins_LEFT [of uuid' baseId' tables']
    by (simp add: suggestJoins_def)
qed


lemmas suggest_eval = suggestJoins_def potentialDimensions_def suggestStep_def bestJoinFor_def
  strategy1_def strategy2_def isIdColumn_def isForeignKey_def nearUnique_def toLowerCase_def
  lowerChar_def

lemmas ex_suggest_defs = ex_uuid_def ex_profile_def ex_table_def ex_Orders_E_def
  ex_Customers_E_def ex_tables_E_def ex_Orders_fm_def ex_tables_fm_def

theorem C8_foreign_key_suggestion_witness:
  "suggestJoins ex_uuid ''Orders'' ex_tables_E =
     Inr [\<lparr>id_join = ex_uuid 0, rightTableId = ''Customers'', leftColumn = ''customer_id'',
           rightColumn = ''id'', joinType = LEFT\<rparr>]"
proof -
  have base: "map_of ex_tables_E ''Orders'' = Some ex_Orders_E"
    by (simp add: ex_tables_E_def)
  have dims: "potentialDimensions ''Orders'' ex_tables_E = [] @ ex_Customers_E # []"
    by (simp add: potentialDimensions_def ex_suggest_defs)
  have tn: "tableName ex_Customers_E = ''Customers''"
    by (simp add: ex_suggest_defs)
  have nomatch: "\<forall>bc\<in>set (columns ex_Orders_E). \<forall>dc\<in>set (columns ex_Customers_E).
                   toLowerCase (name bc) \<noteq> toLowerCase (name dc)"
    by (simp add: ex_suggest_defs toLowerCase_def lowerChar_def)
  have idcol: "find (\<lambda>c. toLowerCase (name c) = ''id'' \<or> toLowerCase (name c) = ''customers_id''
                          \<or> toLowerCase (name c) = ''customer_id'') (columns ex_Customers_E)
                 = Some (ex_profile ''id'' NUMBER 3)"
    by (simp add: ex_suggest_defs toLowerCase_def lowerChar_def)
  have idname: "name (ex_profile ''id'' NUMBER 3) = ''id''"
    by (simp add: ex_profile_def)
  have uniq: "nearUnique (ex_profile ''id'' NUMBER 3) ex_Customers_E"
    by (simp add: nearUnique_def ex_suggest_defs)
  have fk: "find (\<lambda>c. includesStr (toLowerCase (name c)) ''customers''
                       \<or> toLowerCase (name c) = ''customer_id'') (columns ex_Orders_E)
              = Some (ex_profile ''customer_id'' NUMBER 3)"
    by (simp add: ex_suggest_defs toLowerCase_def lowerChar_def)
  have fkname: "name (ex_profile ''customer_id'' NUMBER 3) = ''customer_id''"
    by (simp add: ex_profile_def)
  have k: "0 = snd (fold (suggestStep ex_uuid ex_Orders_E) [] ([], 0))"
    by simp
  from C8_foreign_key_suggestion [OF base dims tn nomatch idcol idname uniq fk fkname k,
         THEN conjunct1]
  show ?thesis by (simp add: ex_suggest_defs)
qed

text \<open>
  Claim C8 as stated fails. The base table below has a column \<open>customer_id\<close>, the table
  Customers has a column \<open>id\<close> with uniqueness ratio 1, and no column name of the one
  equals a column name of the other up to case; the suggestion joins on the base column
  \<open>Customers_region\<close>, the first one whose name contains the table name.
\<close>

theorem C8_first_match_counterexample:
  "map_of ex_tables_fm ''Orders'' = Some ex_Orders_fm
   \<and> potentialDimensions ''Orders'' ex_tables_fm = [ex_Customers_E]
   \<and> tableName ex_Customers_E = ''Customers''
   \<and> map name (columns ex_Orders_fm) = [''Customers_region'', ''customer_id'', ''amt'']
   \<and> map name (columns ex_Customers_E) = [''id'', ''tier'']
   \<and> nearUnique (ex_profile ''id'' NUMBER 3) ex_Customers_E
   \<and> set (map toLowerCase (map name (columns ex_Orders_fm)))
       \<inter> set (map toLowerCase (map name (columns ex_Customers_E))) = {}
   \<and> suggestJoins ex_uuid ''Orders'' ex_tables_fm =
       Inr [\<lparr>id_join = ex_uuid 0, rightTableId = ''Customers'',
             leftColumn = ''Customers_region'', rightColumn = ''id'', joinType = LEFT\<rparr>]"
  by (simp add: suggest_eval ex_suggest_defs getProp_def)

subsection \<open>The join engine over the store\<close>

lemma heapExt_refl: "heapExt h h"
  by (simp add: heapExt_def)

lemma heapExt_trans: "heapExt h1 h2 \<Longrightarrow> heapExt h2 h3 \<Longrightarrow> heapExt h1 h3"
  by (auto simp: heapExt_def)

lemma heapExt_alloc: "heapExt h (snd (alloc v h))"
  by (simp add: heapExt_def alloc_def)

lemma heapExt_alloc': "alloc v h = (a, h') \<Longrightarrow> heapExt h h'"
  using heapExt_alloc [of h v] by simp

lemma alloc_fresh: "alloc v h = (a, h') \<Longrightarrow> a = nextFree h \<and> nextFree h' = Suc a \<and> cells h' a = v"
  by (auto simp: alloc_def)

lemma heapExt_writeCell:
  "heapExt h0 h \<Longrightarrow> nextFree h0 \<le> a \<Longrightarrow> heapExt h0 (writeCell a v h)"
  by (auto simp: heapExt_def writeCell_def)

lemma heapExt_fold_writeCell:
  "heapExt h0 h \<Longrightarrow> nextFree h0 \<le> a \<Longrightarrow>
   heapExt h0 (fold (\<lambda>x h. writeCell a (f x h) h) xs h)"
  by (induction xs arbitrary: h) (simp_all add: heapExt_writeCell)

lemma heapExt_copyRowsH: "heapExt h (snd (copyRowsH rs h))"
proof (induction rs arbitrary: h)
  case Nil show ?case by (simp add: heapExt_refl)
next
  case (Cons r rs)
  obtain a h1 where a: "alloc (cells h r) h = (a, h1)" by fastforce
  obtain as h2 where b: "copyRowsH rs h1 = (as, h2)" by fastforce
  have "heapExt h h1" using a by (rule heapExt_alloc')
  moreover have "heapExt h1 h2" using Cons.IH [of h1] b by simp
  ultimately show ?case using a b by (simp add: heapExt_trans)
qed

lemma heapExt_renameColsH: "heapExt h (snd (renameColsH p cs h))"
proof (induction cs arbitrary: h)
  case Nil show ?case by (simp add: heapExt_refl)
next
  case (Cons c cs)
  obtain a h1 where a: "alloc ((cells h c)\<lparr>name := prefixed p (name (cells h c))\<rparr>) h = (a, h1)"
    by fastforce
  obtain as h2 where b: "renameColsH p cs h1 = (as, h2)" by fastforce
  have "heapExt h h1" using a by (rule heapExt_alloc')
  moreover have "heapExt h1 h2" using Cons.IH [of h1] b by simp
  ultimately show ?case using a b by (simp add: heapExt_trans)
qed

lemma mergeMatchH_ext:
  assumes "mergeMatchH rt rr lr s = (m, s')"
  shows "heapExt (rowObjs s) (rowObjs s') \<and> rowArrays s' = rowArrays s \<and> rowsOnly s s'
         \<and> m = nextFree (rowObjs s)"
proof -
  obtain h1 where a: "alloc (cells (rowObjs s) lr) (rowObjs s) = (m, h1)"
    using assms by (auto simp: mergeMatchH_def split: prod.splits)
  have m: "m = nextFree (rowObjs s)" using a by (simp add: alloc_def)
  have "heapExt (rowObjs s) h1" using a by (rule heapExt_alloc')
  then have "heapExt (rowObjs s)
     (fold (\<lambda>col h. writeCell m
                              (setv (prefixed (tableName_ref rt) (name col))
                                    (getv (cells h rr) (name col)) (cells h m)) h)
                  (columnsOf s rt) h1)"
    by (rule heapExt_fold_writeCell) (simp add: m)
  then show ?thesis using assms a m by (auto simp: mergeMatchH_def rowsOnly_def)
qed

lemma mergeNullsH_ext:
  assumes "mergeNullsH rt lr s = (m, s')"
  shows "heapExt (rowObjs s) (rowObjs s') \<and> rowArrays s' = rowArrays s \<and> rowsOnly s s'
         \<and> m = nextFree (rowObjs s)"
proof -
  obtain h1 where a: "alloc (cells (rowObjs s) lr) (rowObjs s) = (m, h1)"
    using assms by (auto simp: mergeNullsH_def split: prod.splits)
  have m: "m = nextFree (rowObjs s)" using a by (simp add: alloc_def)
  have "heapExt (rowObjs s) h1" using a by (rule heapExt_alloc')
  then have "heapExt (rowObjs s)
     (fold (\<lambda>col h. writeCell m
                              (setv (prefixed (tableName_ref rt) (name col)) VNull (cells h m)) h)
                  (columnsOf s rt) h1)"
    by (rule heapExt_fold_writeCell) (simp add: m)
  then show ?thesis using assms a m by (auto simp: mergeNullsH_def rowsOnly_def)
qed

lemma joinRowsH_ext:
  assumes "heapExt (rowObjs s0) (rowObjs s)" and "heapExt (rowArrays s0) (rowArrays s)"
      and "nextFree (rowArrays s0) \<le> nr"
  shows "heapExt (rowObjs s0) (rowObjs (joinRowsH ns ds j rt m nr ls s))
         \<and> heapExt (rowArrays s0) (rowArrays (joinRowsH ns ds j rt m nr ls s))
         \<and> rowsOnly s (joinRowsH ns ds j rt m nr ls s)"
  using assms
proof (induction ls arbitrary: s)
  case Nil
  then show ?case by (simp add: rowsOnly_def)
next
  case (Cons l ls)
  have push: "\<And>mr s1. heapExt (rowObjs s) (rowObjs s1) \<Longrightarrow> rowArrays s1 = rowArrays s \<Longrightarrow> rowsOnly s s1 \<Longrightarrow>
     heapExt (rowObjs s0) (rowObjs (joinRowsH ns ds j rt m nr ls (pushRowH nr mr s1)))
         \<and> heapExt (rowArrays s0) (rowArrays (joinRowsH ns ds j rt m nr ls (pushRowH nr mr s1)))
         \<and> rowsOnly s (joinRowsH ns ds j rt m nr ls (pushRowH nr mr s1))"
  proof -
    fix mr s1
    assume a: "heapExt (rowObjs s) (rowObjs s1)" and b: "rowArrays s1 = rowArrays s" and c: "rowsOnly s s1"
    let ?s2 = "pushRowH nr mr s1"
    have 1: "heapExt (rowObjs s0) (rowObjs ?s2)"
      using heapExt_trans [OF Cons.prems(1) a] by (simp add: pushRowH_def)
    have 2: "heapExt (rowArrays s0) (rowArrays ?s2)"
      using Cons.prems(2,3) b by (simp add: pushRowH_def heapExt_writeCell)
    have 3: "rowsOnly s ?s2" using c by (simp add: pushRowH_def rowsOnly_def)
    from Cons.IH [OF 1 2 Cons.prems(3)] 3 show
      "heapExt (rowObjs s0) (rowObjs (joinRowsH ns ds j rt m nr ls ?s2))
         \<and> heapExt (rowArrays s0) (rowArrays (joinRowsH ns ds j rt m nr ls ?s2))
         \<and> rowsOnly s (joinRowsH ns ds j rt m nr ls ?s2)"
      by (simp add: rowsOnly_def)
  qed
  show ?case
  proof (cases "m (String_js ns ds (getv (cells (rowObjs s) l) (leftColumn j)))")
    case (Some rr)
    obtain mr s1 where mm: "mergeMatchH rt rr l s = (mr, s1)" by fastforce
    from mergeMatchH_ext [OF mm] push [of s1 mr] show ?thesis using Some mm by simp
  next
    case None
    show ?thesis
    proof (cases "joinType j = LEFT")
      case True
      obtain mr s1 where mm: "mergeNullsH rt l s = (mr, s1)" by fastforce
      from mergeNullsH_ext [OF mm] push [of s1 mr] show ?thesis using None True mm by simp
    next
      case False
      then show ?thesis using None Cons.IH [OF Cons.prems] by simp
    qed
  qed
qed

lemma storeExt_refl: "storeExt s s"
  by (simp add: storeExt_def heapExt_refl)

lemma storeExt_trans: "storeExt s1 s2 \<Longrightarrow> storeExt s2 s3 \<Longrightarrow> storeExt s1 s3"
  unfolding storeExt_def by (blast intro: heapExt_trans)

lemma joinWithH_ext: "storeExt s (snd (joinWithH ns ds j rt (acc, s)))"
proof -
  let ?rm = "buildRightMapH ns ds (rightColumn j) (cells (rowArrays s) (rows_ref rt)) s"
  obtain renamed ch where rn: "renameColsH (tableName_ref rt)
                  (cells (colArrays s) (columns_ref rt)) (colObjs s) = (renamed, ch)" by fastforce
  obtain rcr ca1 where a1: "alloc renamed (colArrays s) = (rcr, ca1)" by fastforce
  obtain nr ra where a2: "alloc [] (rowArrays s) = (nr, ra)" by fastforce
  let ?sa = "s\<lparr>rowArrays := ra, colObjs := ch, colArrays := ca1\<rparr>"
  let ?s1 = "joinRowsH ns ds j rt ?rm nr (cells (rowArrays s) (resultRows_ref acc)) ?sa"
  obtain nc ca2 where a3: "alloc (cells (colArrays ?s1) (resultColumns_ref acc)
                         @ cells (colArrays ?s1) rcr) (colArrays ?s1) = (nc, ca2)" by fastforce
  obtain nd da1 where a4: "alloc (map (prefixed (tableName_ref rt))
                         (cells (dimArrays ?s1) (dimensions_ref rt))) (dimArrays ?s1) = (nd, da1)"
    by fastforce
  obtain nds da2 where a5: "alloc (cells da1 (currentDimensions_ref acc) @ cells da1 nd) da1 = (nds, da2)"
    by fastforce
  have res: "snd (joinWithH ns ds j rt (acc, s)) = ?s1\<lparr>colArrays := ca2, dimArrays := da2\<rparr>"
    using rn a1 a2 a3 a4 a5 by (simp add: joinWithH_def Let_def)
  have e_ch: "heapExt (colObjs s) ch" using heapExt_renameColsH [of "colObjs s"] rn
    by (metis snd_conv)
  have e_ca1: "heapExt (colArrays s) ca1" using a1 by (rule heapExt_alloc')
  have e_ra: "heapExt (rowArrays s) ra" using a2 by (rule heapExt_alloc')
  have nr: "nextFree (rowArrays s) \<le> nr" using a2 by (simp add: alloc_def)
  have jr: "heapExt (rowObjs s) (rowObjs ?s1) \<and> heapExt (rowArrays s) (rowArrays ?s1)
            \<and> rowsOnly ?sa ?s1"
    using joinRowsH_ext [of s ?sa nr ns ds j rt ?rm "cells (rowArrays s) (resultRows_ref acc)"]
      e_ra nr by (simp add: heapExt_refl)
  have c1: "colObjs ?s1 = ch" and c2: "colArrays ?s1 = ca1" and c3: "dimArrays ?s1 = dimArrays s"
    using jr by (simp_all add: rowsOnly_def)
  have e_ca2: "heapExt (colArrays s) ca2"
    using heapExt_trans [OF e_ca1 heapExt_alloc' [OF a3 [unfolded c2]]] .
  have e_da1: "heapExt (dimArrays s) da1" using a4 [unfolded c3] by (rule heapExt_alloc')
  have e_da2: "heapExt (dimArrays s) da2" using heapExt_trans [OF e_da1 heapExt_alloc' [OF a5]] .
  show ?thesis
    unfolding res using jr e_ch e_ca2 e_da2 c1 by (simp add: storeExt_def)
qed

lemma joinStepH_ext: "storeExt s (snd (joinStepH ns ds tables j (acc, s)))"
proof (cases "getProp tables (rightTableId j)")
  case (Own rt)
  obtain acc1 s1 where w: "joinWithH ns ds j rt (acc, s) = (acc1, s1)" by fastforce
  then show ?thesis
    using Own joinWithH_ext [of s ns ds j rt acc] by (simp add: joinStepH_def)
next
  case Inherited
  then show ?thesis by (simp add: joinStepH_def storeExt_refl)
next
  case Absent
  then show ?thesis by (simp add: joinStepH_def storeExt_refl)
qed

lemma joinLoopH_ext: "storeExt s (snd (joinLoopH ns ds tables js (acc, s)))"
proof (induction js arbitrary: acc s)
  case Nil show ?case by (simp add: storeExt_refl)
next
  case (Cons j js)
  obtain r s1 where st: "joinStepH ns ds tables j (acc, s) = (r, s1)" by fastforce
  have e: "storeExt s s1" using joinStepH_ext [of s ns ds tables j acc] st by simp
  show ?case
  proof (cases r)
    case (Inl err)
    then show ?thesis using st e by simp
  next
    case (Inr acc1)
    have "storeExt s1 (snd (joinLoopH ns ds tables js (acc1, s1)))" by (rule Cons.IH)
    with e have "storeExt s (snd (joinLoopH ns ds tables js (acc1, s1)))"
      by (rule storeExt_trans)
    then show ?thesis using st Inr by simp
  qed
qed

lemma executeDataModelH_ext: "storeExt s (snd (executeDataModelH ns ds tables model s))"
proof (cases "getProp tables (baseTableId model)")
  case Absent
  then show ?thesis by (simp add: executeDataModelH_def storeExt_refl)
next
  case Inherited
  then show ?thesis by (simp add: executeDataModelH_def storeExt_refl)
next
  case (Own bt)
  obtain copies rh where cp: "copyRowsH (cells (rowArrays s) (rows_ref bt)) (rowObjs s) = (copies, rh)"
    by fastforce
  obtain r0 ra where a1: "alloc copies (rowArrays s) = (r0, ra)" by fastforce
  obtain c0 ca where a2: "alloc (cells (colArrays s) (columns_ref bt)) (colArrays s) = (c0, ca)"
    by fastforce
  obtain d0 da where a3: "alloc (cells (dimArrays s) (dimensions_ref bt)) (dimArrays s) = (d0, da)"
    by fastforce
  let ?sa = "s\<lparr>rowObjs := rh, rowArrays := ra, colArrays := ca, dimArrays := da\<rparr>"
  let ?acc = "\<lparr>resultRows_ref = r0, resultColumns_ref = c0, currentDimensions_ref = d0\<rparr>"
  have res: "snd (executeDataModelH ns ds tables model s) =
               snd (joinLoopH ns ds tables (joins model) (?acc, ?sa))"
    using Own cp a1 a2 a3 by (simp add: executeDataModelH_def split: prod.splits sum.splits)
  have "heapExt (rowObjs s) rh" using heapExt_copyRowsH [of "rowObjs s"] cp by (metis snd_conv)
  then have "storeExt s ?sa"
    using heapExt_alloc' [OF a1] heapExt_alloc' [OF a2] heapExt_alloc' [OF a3]
    by (simp add: storeExt_def heapExt_refl)
  then show ?thesis
    unfolding res using joinLoopH_ext [of ?sa ns ds tables "joins model" ?acc]
    by (rule storeExt_trans)
qed

lemma heapExt_map_cells:
  "heapExt h h' \<Longrightarrow> list_all (\<lambda>a. a < nextFree h) as \<Longrightarrow> map (cells h') as = map (cells h) as"
  by (induction as) (auto simp: heapExt_def)

lemma tableOf_ext:
  assumes "storeExt s s'" and "allocated s t"
  shows "tableOf s' k t = tableOf s k t"
proof -
  have ra: "cells (rowArrays s') (rows_ref t) = cells (rowArrays s) (rows_ref t)"
    and ca: "cells (colArrays s') (columns_ref t) = cells (colArrays s) (columns_ref t)"
    and da: "cells (dimArrays s') (dimensions_ref t) = cells (dimArrays s) (dimensions_ref t)"
    using assms by (auto simp: storeExt_def heapExt_def allocated_def)
  have r: "map (cells (rowObjs s')) (cells (rowArrays s) (rows_ref t))
             = map (cells (rowObjs s)) (cells (rowArrays s) (rows_ref t))"
    using assms by (intro heapExt_map_cells) (auto simp: storeExt_def allocated_def)
  have c: "map (cells (colObjs s')) (cells (colArrays s) (columns_ref t))
             = map (cells (colObjs s)) (cells (colArrays s) (columns_ref t))"
    using assms by (intro heapExt_map_cells) (auto simp: storeExt_def allocated_def)
  show ?thesis by (simp add: tableOf_def rowsOf_def colsAt_def ra ca da r c)
qed


text \<open>
  The function over the store computes what \<open>executeDataModel\<close> computes: when the
  tables of the collection are allocated, the dataset its result stands for in the final
  store is the result of \<open>executeDataModel\<close> on the tables the collection stands for
  in the initial store.
\<close>

lemma map_of_absTables:
  "map_of (absTables s tables) k = map_option (tableOf s k) (map_of tables k)"
  by (induction tables) (auto simp: absTables_def)

lemma getProp_absTables:
  "getProp (absTables s tables) k =
     (case getProp tables k of
        Own t \<Rightarrow> Own (tableOf s k t) | Inherited \<Rightarrow> Inherited | Absent \<Rightarrow> Absent)"
  by (simp add: getProp_def map_of_absTables split: option.splits)

lemma heapExt_nextFree: "heapExt h h' \<Longrightarrow> nextFree h \<le> nextFree h'"
  by (simp add: heapExt_def)

lemma heapExt_cells: "heapExt h h' \<Longrightarrow> a < nextFree h \<Longrightarrow> cells h' a = cells h a"
  by (simp add: heapExt_def)

lemma list_all_mono_less:
  "list_all (\<lambda>r. r < (n::nat)) xs \<Longrightarrow> n \<le> m \<Longrightarrow> list_all (\<lambda>r. r < m) xs"
  by (induction xs) auto

lemma allocated_ext:
  assumes "storeExt s s'" and "allocated s t"
  shows "allocated s' t"
proof -
  have ra: "cells (rowArrays s') (rows_ref t) = cells (rowArrays s) (rows_ref t)"
    and ca: "cells (colArrays s') (columns_ref t) = cells (colArrays s) (columns_ref t)"
    using assms by (auto simp: storeExt_def heapExt_def allocated_def)
  show ?thesis
    using assms unfolding allocated_def ra ca storeExt_def
    by (auto intro: list_all_mono_less dest: heapExt_nextFree)
qed

lemma copyRowsH_refines:
  assumes "list_all (\<lambda>r. r < nextFree h) rs" and "copyRowsH rs h = (as, h')"
  shows "map (cells h') as = map (cells h) rs \<and> list_all (\<lambda>r. r < nextFree h') as"
  using assms
proof (induction rs arbitrary: h as h')
  case Nil
  then show ?case by simp
next
  case (Cons r rs)
  obtain a h1 where a: "alloc (cells h r) h = (a, h1)" by fastforce
  obtain as1 h2 where b: "copyRowsH rs h1 = (as1, h2)" by fastforce
  have res: "as = a # as1" "h' = h2" using Cons.prems(2) a b by simp_all
  have e1: "heapExt h h1" using a by (rule heapExt_alloc')
  have e2: "heapExt h1 h2" using heapExt_copyRowsH [of h1 rs] b by simp
  have fr: "a = nextFree h" "nextFree h1 = Suc a" "cells h1 a = cells h r"
    using alloc_fresh [OF a] by blast+
  have al1: "list_all (\<lambda>r. r < nextFree h1) rs"
    using Cons.prems(1) fr by (auto intro: list_all_mono_less)
  from Cons.IH [OF al1 b]
  have ih: "map (cells h2) as1 = map (cells h1) rs" "list_all (\<lambda>r. r < nextFree h2) as1"
    by simp_all
  have al: "list_all (\<lambda>r. r < nextFree h) rs" using Cons.prems(1) by simp
  have "map (cells h1) rs = map (cells h) rs"
    using e1 al by (rule heapExt_map_cells)
  moreover have "cells h2 a = cells h r"
    using heapExt_cells [OF e2, of a] fr by simp
  moreover have "a < nextFree h2" using heapExt_nextFree [OF e2] fr by simp
  ultimately show ?case using ih res by simp
qed

lemma renameColsH_refines:
  assumes "list_all (\<lambda>r. r < nextFree h) cs" and "renameColsH p cs h = (as, h')"
  shows "map (cells h') as = map (\<lambda>c. c\<lparr>name := prefixed p (name c)\<rparr>) (map (cells h) cs)
         \<and> list_all (\<lambda>r. r < nextFree h') as"
  using assms
proof (induction cs arbitrary: h as h')
  case Nil
  then show ?case by simp
next
  case (Cons c cs)
  obtain a h1 where a: "alloc ((cells h c)\<lparr>name := prefixed p (name (cells h c))\<rparr>) h = (a, h1)"
    by fastforce
  obtain as1 h2 where b: "renameColsH p cs h1 = (as1, h2)" by fastforce
  have res: "as = a # as1" "h' = h2" using Cons.prems(2) a b by simp_all
  have e1: "heapExt h h1" using a by (rule heapExt_alloc')
  have e2: "heapExt h1 h2" using heapExt_renameColsH [of h1 p cs] b by simp
  have fr: "a = nextFree h" "nextFree h1 = Suc a"
           "cells h1 a = (cells h c)\<lparr>name := prefixed p (name (cells h c))\<rparr>"
    using alloc_fresh [OF a] by blast+
  have al1: "list_all (\<lambda>r. r < nextFree h1) cs"
    using Cons.prems(1) fr by (auto intro: list_all_mono_less)
  from Cons.IH [OF al1 b]
  have ih: "map (cells h2) as1 = map (\<lambda>c. c\<lparr>name := prefixed p (name c)\<rparr>) (map (cells h1) cs)"
           "list_all (\<lambda>r. r < nextFree h2) as1"
    by simp_all
  have al: "list_all (\<lambda>r. r < nextFree h) cs" using Cons.prems(1) by simp
  have "map (cells h1) cs = map (cells h) cs"
    using e1 al by (rule heapExt_map_cells)
  moreover have "cells h2 a = (cells h c)\<lparr>name := prefixed p (name (cells h c))\<rparr>"
    using heapExt_cells [OF e2, of a] fr by simp
  moreover have "a < nextFree h2" using heapExt_nextFree [OF e2] fr by simp
  ultimately show ?case using ih res by simp
qed

lemma fold_rightMapH:
  "map_option f \<circ> fold (\<lambda>row m. m(key (f row) \<mapsto> row)) refs m0 =
     fold (\<lambda>row m. m(key row \<mapsto> row)) (map f refs) (map_option f \<circ> m0)"
proof (induction refs arbitrary: m0)
  case Nil show ?case by simp
next
  case (Cons r refs)
  have eq: "map_option f \<circ> m0(key (f r) \<mapsto> r) = (map_option f \<circ> m0)(key (f r) \<mapsto> f r)"
    by (auto simp: fun_eq_iff)
  have "map_option f \<circ> fold (\<lambda>row m. m(key (f row) \<mapsto> row)) (r # refs) m0 =
          map_option f \<circ> fold (\<lambda>row m. m(key (f row) \<mapsto> row)) refs (m0(key (f r) \<mapsto> r))"
    by simp
  also have "\<dots> = fold (\<lambda>row m. m(key row \<mapsto> row)) (map f refs)
                      (map_option f \<circ> m0(key (f r) \<mapsto> r))"
    by (rule Cons.IH)
  also have "\<dots> = fold (\<lambda>row m. m(key row \<mapsto> row)) (map f refs)
                      ((map_option f \<circ> m0)(key (f r) \<mapsto> f r))"
    by (simp only: eq)
  also have "\<dots> = fold (\<lambda>row m. m(key row \<mapsto> row)) (map f (r # refs)) (map_option f \<circ> m0)"
    by simp
  finally show ?case .
qed

lemma buildRightMapH_refines:
  "map_option (cells (rowObjs s)) \<circ> buildRightMapH ns ds rcol refs s =
     buildRightMap ns ds rcol (map (cells (rowObjs s)) refs)"
  unfolding buildRightMapH_def buildRightMap_def
  using fold_rightMapH [of "cells (rowObjs s)" "\<lambda>row. String_js ns ds (getv row rcol)" refs Map.empty]
  by (simp add: comp_def)

lemma fold_rightMapH_ran:
  "fold (\<lambda>row m. m(g row \<mapsto> row)) refs m0 k = Some r \<Longrightarrow> r \<in> set refs \<or> m0 k = Some r"
proof (induction refs arbitrary: m0)
  case Nil
  then show ?case by simp
next
  case (Cons a refs)
  from Cons.prems have "fold (\<lambda>row m. m(g row \<mapsto> row)) refs (m0(g a \<mapsto> a)) k = Some r"
    by (simp only: fold_simps)
  from Cons.IH [OF this] have "r \<in> set refs \<or> (m0(g a \<mapsto> a)) k = Some r" .
  then show ?case by (auto split: if_splits)
qed

lemma buildRightMapH_ran:
  "buildRightMapH ns ds rcol refs s k = Some r \<Longrightarrow> r \<in> set refs"
  unfolding buildRightMapH_def
  using fold_rightMapH_ran [of "\<lambda>row. String_js ns ds (getv (cells (rowObjs s) row) rcol)" refs Map.empty k r]
  by simp

lemma fold_writeCell_match:
  assumes "rr \<noteq> m"
  shows "cells (fold (\<lambda>col h. writeCell m (setv (P col) (getv (cells h rr) (name col)) (cells h m)) h)
                  cols h1) m
           = fold (\<lambda>col row. setv (P col) (getv (cells h1 rr) (name col)) row) cols (cells h1 m)
         \<and> cells (fold (\<lambda>col h. writeCell m (setv (P col) (getv (cells h rr) (name col)) (cells h m)) h)
                  cols h1) rr = cells h1 rr
         \<and> nextFree (fold (\<lambda>col h. writeCell m (setv (P col) (getv (cells h rr) (name col)) (cells h m)) h)
                  cols h1) = nextFree h1"
proof (induction cols arbitrary: h1)
  case Nil
  show ?case by simp
next
  case (Cons c cols)
  let ?h2 = "writeCell m (setv (P c) (getv (cells h1 rr) (name c)) (cells h1 m)) h1"
  have a: "cells ?h2 m = setv (P c) (getv (cells h1 rr) (name c)) (cells h1 m)"
    and b: "cells ?h2 rr = cells h1 rr" and n: "nextFree ?h2 = nextFree h1"
    using assms by (simp_all add: writeCell_def)
  show ?case using Cons.IH [of ?h2] by (simp only: fold_simps a b n)
qed

lemma fold_writeCell_nulls:
  "cells (fold (\<lambda>col h. writeCell m (setv (P col) VNull (cells h m)) h) cols h1) m
           = fold (\<lambda>col row. setv (P col) VNull row) cols (cells h1 m)
   \<and> nextFree (fold (\<lambda>col h. writeCell m (setv (P col) VNull (cells h m)) h) cols h1) = nextFree h1"
proof (induction cols arbitrary: h1)
  case Nil
  show ?case by simp
next
  case (Cons c cols)
  let ?h2 = "writeCell m (setv (P c) VNull (cells h1 m)) h1"
  have a: "cells ?h2 m = setv (P c) VNull (cells h1 m)" and n: "nextFree ?h2 = nextFree h1"
    by (simp_all add: writeCell_def)
  show ?case using Cons.IH [of ?h2] by (simp only: fold_simps a n)
qed

lemma mergeMatchH_refines:
  assumes "mergeMatchH rt rr lr s = (m, s')"
      and "rr < nextFree (rowObjs s)"
      and "columns T = columnsOf s rt" and "tableName T = tableName_ref rt"
  shows "cells (rowObjs s') m = mergeMatch T (cells (rowObjs s) rr) (cells (rowObjs s) lr)
         \<and> nextFree (rowObjs s') = Suc m"
proof -
  obtain h1 where a: "alloc (cells (rowObjs s) lr) (rowObjs s) = (m, h1)"
    using assms(1) by (auto simp: mergeMatchH_def split: prod.splits)
  have fr: "m = nextFree (rowObjs s)" "nextFree h1 = Suc m" "cells h1 m = cells (rowObjs s) lr"
    using alloc_fresh [OF a] by blast+
  have ne: "rr \<noteq> m" using assms(2) fr by simp
  have rr: "cells h1 rr = cells (rowObjs s) rr"
    using heapExt_cells [OF heapExt_alloc' [OF a] assms(2)] .
  let ?P = "\<lambda>col. prefixed (tableName_ref rt) (name col)"
  have s': "rowObjs s' =
     fold (\<lambda>col h. writeCell m (setv (?P col) (getv (cells h rr) (name col)) (cells h m)) h)
          (columnsOf s rt) h1"
    using assms(1) a by (auto simp: mergeMatchH_def)
  show ?thesis
    unfolding s' using fold_writeCell_match [OF ne, of ?P "columnsOf s rt" h1]
    by (simp add: mergeMatch_def assms(3,4) fr(2,3) rr)
qed

lemma mergeNullsH_refines:
  assumes "mergeNullsH rt lr s = (m, s')"
      and "columns T = columnsOf s rt" and "tableName T = tableName_ref rt"
  shows "cells (rowObjs s') m = mergeNulls T (cells (rowObjs s) lr)
         \<and> nextFree (rowObjs s') = Suc m"
proof -
  obtain h1 where a: "alloc (cells (rowObjs s) lr) (rowObjs s) = (m, h1)"
    using assms(1) by (auto simp: mergeNullsH_def split: prod.splits)
  have fr: "m = nextFree (rowObjs s)" "nextFree h1 = Suc m" "cells h1 m = cells (rowObjs s) lr"
    using alloc_fresh [OF a] by blast+
  let ?P = "\<lambda>col. prefixed (tableName_ref rt) (name col)"
  have s': "rowObjs s' =
     fold (\<lambda>col h. writeCell m (setv (?P col) VNull (cells h m)) h) (columnsOf s rt) h1"
    using assms(1) a by (auto simp: mergeNullsH_def)
  show ?thesis
    unfolding s' using fold_writeCell_nulls [of m ?P "columnsOf s rt" h1]
    by (simp add: mergeNulls_def assms(2,3) fr(2,3))
qed

lemma pushRowH_simps:
  "rowObjs (pushRowH nr m s) = rowObjs s"
  "cells (rowArrays (pushRowH nr m s)) nr = cells (rowArrays s) nr @ [m]"
  "nextFree (rowArrays (pushRowH nr m s)) = nextFree (rowArrays s)"
  "colObjs (pushRowH nr m s) = colObjs s"
  "colArrays (pushRowH nr m s) = colArrays s"
  "dimArrays (pushRowH nr m s) = dimArrays s"
  by (simp_all add: pushRowH_def writeCell_def)

lemma columnsOf_cong:
  "colObjs s' = colObjs s \<Longrightarrow> colArrays s' = colArrays s \<Longrightarrow> columnsOf s' rt = columnsOf s rt"
  by (simp add: columnsOf_def)

lemma rowsOnly_trans: "rowsOnly s1 s2 \<Longrightarrow> rowsOnly s2 s3 \<Longrightarrow> rowsOnly s1 s3"
  by (simp add: rowsOnly_def)

lemma map_option_cells_ext:
  assumes "heapExt h h'" and "\<forall>k r. rm k = Some r \<longrightarrow> r < nextFree h"
  shows "map_option (cells h') \<circ> rm = map_option (cells h) \<circ> rm"
proof
  fix k
  show "(map_option (cells h') \<circ> rm) k = (map_option (cells h) \<circ> rm) k"
  proof (cases "rm k")
    case None then show ?thesis by simp
  next
    case (Some r)
    then have "r < nextFree h" using assms(2) by blast
    then show ?thesis using heapExt_cells [OF assms(1)] Some by simp
  qed
qed

text \<open>One pushed row: what the rest of the loop needs to know about the store after it.\<close>

lemma joinRowsH_step:
  assumes ih: "\<And>s2. list_all (\<lambda>r. r < nextFree (rowObjs s2)) ls \<Longrightarrow>
                 \<forall>k r. rm k = Some r \<longrightarrow> r < nextFree (rowObjs s2) \<Longrightarrow>
                 columns T = columnsOf s2 rt \<Longrightarrow>
           \<exists>news. cells (rowArrays (joinRowsH ns ds j rt rm nr ls s2)) nr = cells (rowArrays s2) nr @ news
             \<and> map (cells (rowObjs (joinRowsH ns ds j rt rm nr ls s2))) news =
                 joinRows ns ds j T (map_option (cells (rowObjs s2)) \<circ> rm) (map (cells (rowObjs s2)) ls)
             \<and> list_all (\<lambda>r. r < nextFree (rowObjs (joinRowsH ns ds j rt rm nr ls s2))) news
             \<and> heapExt (rowObjs s2) (rowObjs (joinRowsH ns ds j rt rm nr ls s2))
             \<and> nextFree (rowArrays (joinRowsH ns ds j rt rm nr ls s2)) = nextFree (rowArrays s2)
             \<and> rowsOnly s2 (joinRowsH ns ds j rt rm nr ls s2)"
      and ls: "list_all (\<lambda>r. r < nextFree (rowObjs s)) ls"
      and rm: "\<forall>k r. rm k = Some r \<longrightarrow> r < nextFree (rowObjs s)"
      and T: "columns T = columnsOf s rt"
      and ext: "heapExt (rowObjs s) (rowObjs s1)" and ra: "rowArrays s1 = rowArrays s"
      and ro: "rowsOnly s s1"
      and m: "cells (rowObjs s1) m = v" "nextFree (rowObjs s1) = Suc m"
  shows "\<exists>news. cells (rowArrays (joinRowsH ns ds j rt rm nr ls (pushRowH nr m s1))) nr
                   = cells (rowArrays s) nr @ news
             \<and> map (cells (rowObjs (joinRowsH ns ds j rt rm nr ls (pushRowH nr m s1)))) news =
                 v # joinRows ns ds j T (map_option (cells (rowObjs s)) \<circ> rm) (map (cells (rowObjs s)) ls)
             \<and> list_all (\<lambda>r. r < nextFree (rowObjs (joinRowsH ns ds j rt rm nr ls (pushRowH nr m s1)))) news
             \<and> heapExt (rowObjs s) (rowObjs (joinRowsH ns ds j rt rm nr ls (pushRowH nr m s1)))
             \<and> nextFree (rowArrays (joinRowsH ns ds j rt rm nr ls (pushRowH nr m s1))) = nextFree (rowArrays s)
             \<and> rowsOnly s (joinRowsH ns ds j rt rm nr ls (pushRowH nr m s1))"
proof -
  let ?s2 = "pushRowH nr m s1"
  let ?s' = "joinRowsH ns ds j rt rm nr ls ?s2"
  have ro2: "rowsOnly s ?s2" using ro by (simp add: rowsOnly_def pushRowH_simps)
  have le2: "nextFree (rowObjs s) \<le> nextFree (rowObjs ?s2)"
    using heapExt_nextFree [OF ext] by (simp add: pushRowH_simps)
  have ls2: "list_all (\<lambda>r. r < nextFree (rowObjs ?s2)) ls"
    using ls le2 by (rule list_all_mono_less)
  have rm2: "\<forall>k r. rm k = Some r \<longrightarrow> r < nextFree (rowObjs ?s2)"
  proof (intro allI impI)
    fix k r assume "rm k = Some r"
    then have "r < nextFree (rowObjs s)" using rm by blast
    then show "r < nextFree (rowObjs ?s2)" using le2 by simp
  qed
  have T2: "columns T = columnsOf ?s2 rt"
    using T ro2 columnsOf_cong [of ?s2 s rt] by (simp add: rowsOnly_def)
  from ih [OF ls2 rm2 T2] obtain news where
    n: "cells (rowArrays ?s') nr = cells (rowArrays ?s2) nr @ news
      \<and> map (cells (rowObjs ?s')) news =
               joinRows ns ds j T (map_option (cells (rowObjs ?s2)) \<circ> rm) (map (cells (rowObjs ?s2)) ls)
      \<and> list_all (\<lambda>r. r < nextFree (rowObjs ?s')) news
      \<and> heapExt (rowObjs ?s2) (rowObjs ?s')
      \<and> nextFree (rowArrays ?s') = nextFree (rowArrays ?s2)
      \<and> rowsOnly ?s2 ?s'" ..
  note n1 = n [THEN conjunct1]
  note n2 = n [THEN conjunct2, THEN conjunct1]
  note n3 = n [THEN conjunct2, THEN conjunct2, THEN conjunct1]
  note n4 = n [THEN conjunct2, THEN conjunct2, THEN conjunct2, THEN conjunct1]
  note n5 = n [THEN conjunct2, THEN conjunct2, THEN conjunct2, THEN conjunct2, THEN conjunct1]
  note n6 = n [THEN conjunct2, THEN conjunct2, THEN conjunct2, THEN conjunct2, THEN conjunct2]
  have ext2: "heapExt (rowObjs s) (rowObjs ?s2)" using ext by (simp add: pushRowH_simps)
  have a: "map (cells (rowObjs ?s2)) ls = map (cells (rowObjs s)) ls"
    using ext2 ls by (rule heapExt_map_cells)
  have b: "map_option (cells (rowObjs ?s2)) \<circ> rm = map_option (cells (rowObjs s)) \<circ> rm"
    using ext2 rm by (rule map_option_cells_ext)
  have c: "cells (rowObjs ?s') m = v"
    using heapExt_cells [OF n4, of m] m by (simp add: pushRowH_simps)
  have d: "m < nextFree (rowObjs ?s')"
    using heapExt_nextFree [OF n4] m by (simp add: pushRowH_simps)
  have 1: "cells (rowArrays ?s') nr = cells (rowArrays s) nr @ (m # news)"
    using n1 ra by (simp add: pushRowH_simps)
  have 2: "map (cells (rowObjs ?s')) (m # news) =
             v # joinRows ns ds j T (map_option (cells (rowObjs s)) \<circ> rm) (map (cells (rowObjs s)) ls)"
    using n2 c by (simp only: a b list.map)
  have 3: "list_all (\<lambda>r. r < nextFree (rowObjs ?s')) (m # news)" using n3 d by simp
  have 4: "heapExt (rowObjs s) (rowObjs ?s')" using ext2 n4 by (rule heapExt_trans)
  have 5: "nextFree (rowArrays ?s') = nextFree (rowArrays s)"
    using n5 ra by (simp add: pushRowH_simps)
  have 6: "rowsOnly s ?s'" using ro2 n6 by (rule rowsOnly_trans)
  show ?thesis by (intro exI [of _ "m # news"] conjI 1 2 3 4 5 6)
qed

lemma joinRowsH_refines:
  assumes "list_all (\<lambda>r. r < nextFree (rowObjs s)) ls"
      and "\<forall>k r. rm k = Some r \<longrightarrow> r < nextFree (rowObjs s)"
      and "columns T = columnsOf s rt" and "tableName T = tableName_ref rt"
  shows "\<exists>news. cells (rowArrays (joinRowsH ns ds j rt rm nr ls s)) nr = cells (rowArrays s) nr @ news
     \<and> map (cells (rowObjs (joinRowsH ns ds j rt rm nr ls s))) news =
         joinRows ns ds j T (map_option (cells (rowObjs s)) \<circ> rm) (map (cells (rowObjs s)) ls)
     \<and> list_all (\<lambda>r. r < nextFree (rowObjs (joinRowsH ns ds j rt rm nr ls s))) news
     \<and> heapExt (rowObjs s) (rowObjs (joinRowsH ns ds j rt rm nr ls s))
     \<and> nextFree (rowArrays (joinRowsH ns ds j rt rm nr ls s)) = nextFree (rowArrays s)
     \<and> rowsOnly s (joinRowsH ns ds j rt rm nr ls s)"
  using assms(1,2,3)
proof (induction ls arbitrary: s)
  case Nil
  show ?case by (simp add: heapExt_refl rowsOnly_def)
next
  case (Cons l ls)
  have ls: "list_all (\<lambda>r. r < nextFree (rowObjs s)) ls" and l: "l < nextFree (rowObjs s)"
    using Cons.prems(1) by simp_all
  let ?key = "String_js ns ds (getv (cells (rowObjs s) l) (leftColumn j))"
  show ?case
  proof (cases "rm ?key")
    case (Some rr)
    obtain m s1 where mm: "mergeMatchH rt rr l s = (m, s1)" by fastforce
    have rr: "rr < nextFree (rowObjs s)" using Cons.prems(2) Some by blast
    from mergeMatchH_ext [OF mm]
    have ext: "heapExt (rowObjs s) (rowObjs s1)" and ra: "rowArrays s1 = rowArrays s"
      and ro: "rowsOnly s s1" by simp_all
    from mergeMatchH_refines [OF mm rr Cons.prems(3) assms(4)]
    have mv: "cells (rowObjs s1) m = mergeMatch T (cells (rowObjs s) rr) (cells (rowObjs s) l)"
      and mn: "nextFree (rowObjs s1) = Suc m" by simp_all
    have step: "joinRowsH ns ds j rt rm nr (l # ls) s = joinRowsH ns ds j rt rm nr ls (pushRowH nr m s1)"
      using Some mm by simp
    have pure: "joinRows ns ds j T (map_option (cells (rowObjs s)) \<circ> rm) (map (cells (rowObjs s)) (l # ls))
       = mergeMatch T (cells (rowObjs s) rr) (cells (rowObjs s) l)
         # joinRows ns ds j T (map_option (cells (rowObjs s)) \<circ> rm) (map (cells (rowObjs s)) ls)"
      using Some by simp
    show ?thesis
      unfolding step pure
      by (rule joinRowsH_step [OF Cons.IH ls Cons.prems(2) Cons.prems(3) ext ra ro mv mn])
  next
    case None
    show ?thesis
    proof (cases "joinType j = LEFT")
      case True
      obtain m s1 where mm: "mergeNullsH rt l s = (m, s1)" by fastforce
      from mergeNullsH_ext [OF mm]
      have ext: "heapExt (rowObjs s) (rowObjs s1)" and ra: "rowArrays s1 = rowArrays s"
        and ro: "rowsOnly s s1" by simp_all
      from mergeNullsH_refines [OF mm Cons.prems(3) assms(4)]
      have mv: "cells (rowObjs s1) m = mergeNulls T (cells (rowObjs s) l)"
        and mn: "nextFree (rowObjs s1) = Suc m" by simp_all
      have step: "joinRowsH ns ds j rt rm nr (l # ls) s = joinRowsH ns ds j rt rm nr ls (pushRowH nr m s1)"
        using None True mm by simp
      have pure: "joinRows ns ds j T (map_option (cells (rowObjs s)) \<circ> rm) (map (cells (rowObjs s)) (l # ls))
         = mergeNulls T (cells (rowObjs s) l)
           # joinRows ns ds j T (map_option (cells (rowObjs s)) \<circ> rm) (map (cells (rowObjs s)) ls)"
        using None True by simp
      show ?thesis
        unfolding step pure
        by (rule joinRowsH_step [OF Cons.IH ls Cons.prems(2) Cons.prems(3) ext ra ro mv mn])
    next
      case False
      have step: "joinRowsH ns ds j rt rm nr (l # ls) s = joinRowsH ns ds j rt rm nr ls s"
        using None False by simp
      have pure: "joinRows ns ds j T (map_option (cells (rowObjs s)) \<circ> rm) (map (cells (rowObjs s)) (l # ls))
         = joinRows ns ds j T (map_option (cells (rowObjs s)) \<circ> rm) (map (cells (rowObjs s)) ls)"
        using None False by simp
      show ?thesis
        unfolding step pure by (rule Cons.IH [OF ls Cons.prems(2) Cons.prems(3)])
    qed
  qed
qed

lemma alloc_cells_old: "alloc v h = (a, h') \<Longrightarrow> b < nextFree h \<Longrightarrow> cells h' b = cells h b"
  by (auto simp: alloc_def)

lemma joinWithH_refines:
  assumes art: "allocated s rt"
      and acc: "allocatedAcc s acc"
      and step: "joinWithH ns ds j rt (acc, s) = (acc', s')"
  shows "accOf s' acc' = joinWith ns ds j (tableOf s k rt) (accOf s acc)
         \<and> allocatedAcc s' acc'"
proof -
  let ?T = "tableOf s k rt"
  let ?rrefs = "cells (rowArrays s) (rows_ref rt)"
  let ?crefs = "cells (colArrays s) (columns_ref rt)"
  let ?rm = "buildRightMapH ns ds (rightColumn j) ?rrefs s"
  obtain renamed ch where rn: "renameColsH (tableName_ref rt) ?crefs (colObjs s) = (renamed, ch)"
    by fastforce
  obtain rcr ca1 where a1: "alloc renamed (colArrays s) = (rcr, ca1)" by fastforce
  obtain nr ra where a2: "alloc [] (rowArrays s) = (nr, ra)" by fastforce
  let ?sa = "s\<lparr>rowArrays := ra, colObjs := ch, colArrays := ca1\<rparr>"
  let ?lrefs = "cells (rowArrays s) (resultRows_ref acc)"
  let ?s1 = "joinRowsH ns ds j rt ?rm nr ?lrefs ?sa"
  obtain nc ca2 where a3: "alloc (cells (colArrays ?s1) (resultColumns_ref acc)
                         @ cells (colArrays ?s1) rcr) (colArrays ?s1) = (nc, ca2)" by fastforce
  obtain nd da1 where a4: "alloc (map (prefixed (tableName_ref rt))
                         (cells (dimArrays ?s1) (dimensions_ref rt))) (dimArrays ?s1) = (nd, da1)"
    by fastforce
  obtain nds da2 where a5: "alloc (cells da1 (currentDimensions_ref acc) @ cells da1 nd) da1 = (nds, da2)"
    by fastforce
  have res: "acc' = \<lparr>resultRows_ref = nr, resultColumns_ref = nc, currentDimensions_ref = nds\<rparr>"
            "s' = ?s1\<lparr>colArrays := ca2, dimArrays := da2\<rparr>"
    using step rn a1 a2 a3 a4 a5 by (simp_all add: joinWithH_def Let_def)
  \<comment> \<open>the allocation facts\<close>
  have rrefs_al: "list_all (\<lambda>r. r < nextFree (rowObjs s)) ?rrefs"
    and crefs_al: "list_all (\<lambda>c. c < nextFree (colObjs s)) ?crefs"
    and cref_al: "columns_ref rt < nextFree (colArrays s)"
    and dref_al: "dimensions_ref rt < nextFree (dimArrays s)"
    using art by (simp_all add: allocated_def)
  have lrefs_al: "list_all (\<lambda>r. r < nextFree (rowObjs s)) ?lrefs"
    and accc_al: "resultColumns_ref acc < nextFree (colArrays s)"
    and acccs_al: "list_all (\<lambda>c. c < nextFree (colObjs s)) (cells (colArrays s) (resultColumns_ref acc))"
    and accd_al: "currentDimensions_ref acc < nextFree (dimArrays s)"
    using acc by (simp_all add: allocatedAcc_def)
  \<comment> \<open>the renamed columns\<close>
  from renameColsH_refines [OF crefs_al rn]
  have ren: "map (cells ch) renamed =
               map (\<lambda>c. c\<lparr>name := prefixed (tableName_ref rt) (name c)\<rparr>) (map (cells (colObjs s)) ?crefs)"
    and ren_al: "list_all (\<lambda>r. r < nextFree ch) renamed" by simp_all
  have e_ch: "heapExt (colObjs s) ch" using heapExt_renameColsH [of "colObjs s"] rn
    by (metis snd_conv)
  have fr1: "rcr = nextFree (colArrays s)" "nextFree ca1 = Suc rcr" "cells ca1 rcr = renamed"
    using alloc_fresh [OF a1] by blast+
  have fr2: "nr = nextFree (rowArrays s)" "nextFree ra = Suc nr" "cells ra nr = []"
    using alloc_fresh [OF a2] by blast+
  \<comment> \<open>the loop over the rows\<close>
  have rm_al: "\<forall>k r. ?rm k = Some r \<longrightarrow> r < nextFree (rowObjs ?sa)"
  proof (intro allI impI)
    fix k r assume "?rm k = Some r"
    then have "r \<in> set ?rrefs" by (rule buildRightMapH_ran)
    then show "r < nextFree (rowObjs ?sa)" using rrefs_al by (simp add: list_all_iff)
  qed
  have colsT: "columns ?T = columnsOf ?sa rt"
  proof -
    have "cells ca1 (columns_ref rt) = ?crefs" using alloc_cells_old [OF a1 cref_al] .
    moreover have "map (cells ch) ?crefs = map (cells (colObjs s)) ?crefs"
      using e_ch crefs_al by (rule heapExt_map_cells)
    ultimately show ?thesis by (simp add: tableOf_def colsAt_def columnsOf_def)
  qed
  have nameT: "tableName ?T = tableName_ref rt" by (simp add: tableOf_def)
  have lrefs_al': "list_all (\<lambda>r. r < nextFree (rowObjs ?sa)) ?lrefs" using lrefs_al by simp
  from joinRowsH_refines [OF lrefs_al' rm_al colsT nameT, of ns ds j nr]
  obtain news where
    n: "cells (rowArrays ?s1) nr = cells (rowArrays ?sa) nr @ news
     \<and> map (cells (rowObjs ?s1)) news =
         joinRows ns ds j ?T (map_option (cells (rowObjs ?sa)) \<circ> ?rm) (map (cells (rowObjs ?sa)) ?lrefs)
     \<and> list_all (\<lambda>r. r < nextFree (rowObjs ?s1)) news
     \<and> heapExt (rowObjs ?sa) (rowObjs ?s1)
     \<and> nextFree (rowArrays ?s1) = nextFree (rowArrays ?sa)
     \<and> rowsOnly ?sa ?s1" ..
  note n1 = n [THEN conjunct1]
  note n2 = n [THEN conjunct2, THEN conjunct1]
  note n3 = n [THEN conjunct2, THEN conjunct2, THEN conjunct1]
  note n5 = n [THEN conjunct2, THEN conjunct2, THEN conjunct2, THEN conjunct2, THEN conjunct1]
  note n6 = n [THEN conjunct2, THEN conjunct2, THEN conjunct2, THEN conjunct2, THEN conjunct2]
  have c1: "colObjs ?s1 = ch" and c2: "colArrays ?s1 = ca1" and c3: "dimArrays ?s1 = dimArrays s"
    using n6 by (simp_all add: rowsOnly_def)
  have rows1: "cells (rowArrays ?s1) nr = news" using n1 fr2(3) by simp
  have rm_pure: "map_option (cells (rowObjs s)) \<circ> ?rm = buildRightMap ns ds (rightColumn j) (rows ?T)"
    using buildRightMapH_refines [of s ns ds "rightColumn j" ?rrefs]
    by (simp add: tableOf_def rowsOf_def)
  have rows_pure: "map (cells (rowObjs ?s1)) news =
      joinRows ns ds j ?T (buildRightMap ns ds (rightColumn j) (rows ?T)) (rowsOf s (resultRows_ref acc))"
    using n2 rm_pure by (simp add: rowsOf_def)
  \<comment> \<open>the new column array\<close>
  have fr3: "nc = nextFree ca1" "nextFree ca2 = Suc nc"
            "cells ca2 nc = cells ca1 (resultColumns_ref acc) @ cells ca1 rcr"
    using alloc_fresh [OF a3] unfolding c2 by blast+
  have oldc: "cells ca1 (resultColumns_ref acc) = cells (colArrays s) (resultColumns_ref acc)"
    using alloc_cells_old [OF a1 accc_al] .
  have cols_pure: "map (cells ch) (cells ca2 nc) = colsAt s (resultColumns_ref acc) @ rightColsRenamed ?T"
  proof -
    have "map (cells ch) (cells (colArrays s) (resultColumns_ref acc))
            = map (cells (colObjs s)) (cells (colArrays s) (resultColumns_ref acc))"
      using e_ch acccs_al by (rule heapExt_map_cells)
    then show ?thesis
      by (simp add: fr3(3) fr1(3) oldc ren colsAt_def rightColsRenamed_def tableOf_def)
  qed
  \<comment> \<open>the new dimension arrays\<close>
  have fr4: "nd = nextFree (dimArrays s)" "nextFree da1 = Suc nd"
            "cells da1 nd = map (prefixed (tableName_ref rt)) (cells (dimArrays s) (dimensions_ref rt))"
    using alloc_fresh [OF a4] unfolding c3 by blast+
  have fr5: "nds = nextFree da1" "nextFree da2 = Suc nds"
            "cells da2 nds = cells da1 (currentDimensions_ref acc) @ cells da1 nd"
    using alloc_fresh [OF a5] by blast+
  have oldd: "cells da1 (currentDimensions_ref acc) = cells (dimArrays s) (currentDimensions_ref acc)"
    using alloc_cells_old [OF a4 [unfolded c3] accd_al] .
  have dims_pure: "cells da2 nds = cells (dimArrays s) (currentDimensions_ref acc)
                     @ map (prefixed (tableName ?T)) (dimensions ?T)"
    by (simp add: fr5(3) oldd fr4(3) tableOf_def)
  \<comment> \<open>putting the three together\<close>
  have abs: "accOf s' acc' = joinWith ns ds j ?T (accOf s acc)"
    unfolding res
    by (simp add: accOf_def joinWith_def Let_def rowsOf_def colsAt_def c1 rows1 rows_pure
          cols_pure dims_pure)
  have al: "allocatedAcc s' acc'"
  proof -
    have "nr < nextFree (rowArrays ?s1)" using n5 fr2(2) by simp
    moreover have "list_all (\<lambda>r. r < nextFree (rowObjs ?s1)) (cells (rowArrays ?s1) nr)"
      using n3 rows1 by simp
    moreover have "list_all (\<lambda>c. c < nextFree ch) (cells ca2 nc)"
    proof -
      have "list_all (\<lambda>c. c < nextFree ch) (cells (colArrays s) (resultColumns_ref acc))"
        using acccs_al heapExt_nextFree [OF e_ch] by (rule list_all_mono_less)
      then show ?thesis using ren_al by (simp add: fr3(3) fr1(3) oldc)
    qed
    moreover have "nc < nextFree ca2" using fr3(2) by simp
    moreover have "nds < nextFree da2" using fr5(2) by simp
    ultimately show ?thesis
      unfolding res by (simp add: allocatedAcc_def c1)
  qed
  from abs al show ?thesis by simp
qed

lemma joinStepH_refines:
  assumes tabs: "list_all (\<lambda>(k, t). allocated s t) tables"
      and acc: "allocatedAcc s acc"
      and step: "joinStepH ns ds tables j (acc, s) = (r, s')"
  shows "map_sum id (accOf s') r = joinStep ns ds (absTables s tables) j (accOf s acc)
         \<and> (\<forall>acc'. r = Inr acc' \<longrightarrow> allocatedAcc s' acc')"
proof (cases "getProp tables (rightTableId j)")
  case Absent
  then show ?thesis
    using step acc by (auto simp: joinStepH_def joinStep_def getProp_absTables)
next
  case Inherited
  then show ?thesis
    using step by (auto simp: joinStepH_def joinStep_def getProp_absTables)
next
  case (Own rt)
  then have "map_of tables (rightTableId j) = Some rt"
    by (simp add: getProp_def split: option.splits if_splits)
  then have "(rightTableId j, rt) \<in> set tables" by (rule map_of_SomeD)
  then have art: "allocated s rt" using tabs by (auto simp: list_all_iff)
  obtain acc1 s1 where w: "joinWithH ns ds j rt (acc, s) = (acc1, s1)" by fastforce
  from joinWithH_refines [OF art acc w, of "rightTableId j"]
  have a: "accOf s1 acc1 = joinWith ns ds j (tableOf s (rightTableId j) rt) (accOf s acc)"
    and al: "allocatedAcc s1 acc1" by simp_all
  have "r = Inr acc1" "s' = s1" using step Own w by (simp_all add: joinStepH_def)
  then show ?thesis using a al Own by (simp add: joinStep_def getProp_absTables)
qed

lemma allocated_all_ext:
  assumes "storeExt s s'" and "list_all (\<lambda>(k, t). allocated s t) tables"
  shows "list_all (\<lambda>(k, t). allocated s' t) tables"
  using assms(2) allocated_ext [OF assms(1)] by (induction tables) auto

lemma absTables_ext:
  assumes "storeExt s s'" and "list_all (\<lambda>(k, t). allocated s t) tables"
  shows "absTables s' tables = absTables s tables"
  using assms(2) tableOf_ext [OF assms(1)] by (induction tables) (auto simp: absTables_def)

lemma joinLoopH_refines:
  assumes "list_all (\<lambda>(k, t). allocated s t) tables" and "allocatedAcc s acc"
      and "joinLoopH ns ds tables js (acc, s) = (r, s')"
  shows "map_sum id (accOf s') r = joinLoop ns ds (absTables s tables) js (accOf s acc)"
  using assms
proof (induction js arbitrary: acc s)
  case Nil
  then show ?case by auto
next
  case (Cons j js)
  obtain r1 s1 where st: "joinStepH ns ds tables j (acc, s) = (r1, s1)" by fastforce
  from joinStepH_refines [OF Cons.prems(1,2) st]
  have a: "map_sum id (accOf s1) r1 = joinStep ns ds (absTables s tables) j (accOf s acc)"
    and al: "\<forall>acc'. r1 = Inr acc' \<longrightarrow> allocatedAcc s1 acc'" by simp_all
  show ?case
  proof (cases r1)
    case (Inl e)
    then have "r = Inl e" using Cons.prems(3) st by simp
    moreover have "joinStep ns ds (absTables s tables) j (accOf s acc) = Inl e"
      using a Inl by simp
    ultimately show ?thesis by simp
  next
    case (Inr acc1)
    have ext: "storeExt s s1" using joinStepH_ext [of s ns ds tables j acc] st by simp
    have tabs1: "list_all (\<lambda>(k, t). allocated s1 t) tables"
      using ext Cons.prems(1) by (rule allocated_all_ext)
    have abs1: "absTables s1 tables = absTables s tables"
      using ext Cons.prems(1) by (rule absTables_ext)
    have al1: "allocatedAcc s1 acc1" using al Inr by simp
    have rest: "joinLoopH ns ds tables js (acc1, s1) = (r, s')"
      using Cons.prems(3) st Inr by simp
    have "joinStep ns ds (absTables s tables) j (accOf s acc) = Inr (accOf s1 acc1)"
      using a Inr by simp
    then show ?thesis using Cons.IH [OF tabs1 al1 rest] by (simp add: abs1)
  qed
qed

lemma executeDataModelH_refines:
  assumes tabs: "list_all (\<lambda>(k, t). allocated s t) tables"
  shows "resultOf (executeDataModelH ns ds tables model s) =
           executeDataModel ns ds (absTables s tables) model"
proof (cases "getProp tables (baseTableId model)")
  case Absent
  then show ?thesis
    by (simp add: executeDataModelH_def executeDataModel_def resultOf_def getProp_absTables)
next
  case Inherited
  then show ?thesis
    by (simp add: executeDataModelH_def executeDataModel_def resultOf_def getProp_absTables)
next
  case (Own bt)
  let ?k = "baseTableId model"
  let ?T = "tableOf s ?k bt"
  have "map_of tables ?k = Some bt"
    using Own by (simp add: getProp_def split: option.splits if_splits)
  then have "(?k, bt) \<in> set tables" by (rule map_of_SomeD)
  then have abt: "allocated s bt" using tabs by (auto simp: list_all_iff)
  have pureT: "getProp (absTables s tables) ?k = Own ?T"
    by (simp add: getProp_absTables Own)
  let ?rrefs = "cells (rowArrays s) (rows_ref bt)"
  obtain copies rh where cp: "copyRowsH ?rrefs (rowObjs s) = (copies, rh)" by fastforce
  obtain r0 ra where a1: "alloc copies (rowArrays s) = (r0, ra)" by fastforce
  obtain c0 ca where a2: "alloc (cells (colArrays s) (columns_ref bt)) (colArrays s) = (c0, ca)"
    by fastforce
  obtain d0 da where a3: "alloc (cells (dimArrays s) (dimensions_ref bt)) (dimArrays s) = (d0, da)"
    by fastforce
  let ?sa = "s\<lparr>rowObjs := rh, rowArrays := ra, colArrays := ca, dimArrays := da\<rparr>"
  let ?acc = "\<lparr>resultRows_ref = r0, resultColumns_ref = c0, currentDimensions_ref = d0\<rparr>"
  obtain r s' where fl: "joinLoopH ns ds tables (joins model) (?acc, ?sa) = (r, s')"
    by fastforce
  have res: "executeDataModelH ns ds tables model s =
     (case r of
        Inl e \<Rightarrow> (Inl e, s')
      | Inr acc' \<Rightarrow>
     (Inr \<lparr>out_fileName = ''Model: '' @ tableName_ref bt @ '' + ''
                                   @ show_nat (length (joins model)) @ '' joins'',
            out_rows = resultRows_ref acc',
            out_columns = resultColumns_ref acc',
            out_rowCount = length (cells (rowArrays s') (resultRows_ref acc')),
            out_primaryDateColumn = primaryDateColumn_ref bt,
            out_primaryMeasureColumn = primaryMeasureColumn_ref bt,
            out_dimensions = currentDimensions_ref acc'\<rparr>, s'))"
    using Own cp a1 a2 a3 fl by (simp add: executeDataModelH_def split: sum.splits)
  have rrefs_al: "list_all (\<lambda>r. r < nextFree (rowObjs s)) ?rrefs"
    and crefs_al: "list_all (\<lambda>c. c < nextFree (colObjs s)) (cells (colArrays s) (columns_ref bt))"
    using abt by (simp_all add: allocated_def)
  from copyRowsH_refines [OF rrefs_al cp]
  have cpv: "map (cells rh) copies = map (cells (rowObjs s)) ?rrefs"
    and cpa: "list_all (\<lambda>r. r < nextFree rh) copies" by simp_all
  have fr1: "nextFree ra = Suc r0" "cells ra r0 = copies" using alloc_fresh [OF a1] by blast+
  have fr2: "nextFree ca = Suc c0" "cells ca c0 = cells (colArrays s) (columns_ref bt)"
    using alloc_fresh [OF a2] by blast+
  have fr3: "nextFree da = Suc d0" "cells da d0 = cells (dimArrays s) (dimensions_ref bt)"
    using alloc_fresh [OF a3] by blast+
  have e_rh: "heapExt (rowObjs s) rh" using heapExt_copyRowsH [of "rowObjs s"] cp by (metis snd_conv)
  have ext: "storeExt s ?sa"
    using e_rh heapExt_alloc' [OF a1] heapExt_alloc' [OF a2] heapExt_alloc' [OF a3]
    by (simp add: storeExt_def heapExt_refl)
  have acc_al: "allocatedAcc ?sa ?acc"
    using cpa crefs_al by (simp add: allocatedAcc_def fr1 fr2 fr3)
  have acc_abs: "accOf ?sa ?acc =
      \<lparr>resultRows = rows ?T, resultColumns = columns ?T, currentDimensions = dimensions ?T\<rparr>"
    by (simp add: accOf_def rowsOf_def colsAt_def tableOf_def fr1 fr2 fr3 cpv)
  have tabs_a: "list_all (\<lambda>(k, t). allocated ?sa t) tables"
    using ext tabs by (rule allocated_all_ext)
  have abs_a: "absTables ?sa tables = absTables s tables"
    using ext tabs by (rule absTables_ext)
  from joinLoopH_refines [OF tabs_a acc_al fl]
  have fin: "joinLoop ns ds (absTables s tables) (joins model)
       \<lparr>resultRows = rows ?T, resultColumns = columns ?T, currentDimensions = dimensions ?T\<rparr>
     = map_sum id (accOf s') r"
    by (simp add: abs_a acc_abs)
  show ?thesis
  proof (cases r)
    case (Inl e)
    then show ?thesis
      unfolding res by (simp add: resultOf_def executeDataModel_def pureT fin)
  next
    case (Inr acc')
    have f1: "rowsOf s' (resultRows_ref acc') = resultRows (accOf s' acc')"
      and f2: "colsAt s' (resultColumns_ref acc') = resultColumns (accOf s' acc')"
      and f3: "cells (dimArrays s') (currentDimensions_ref acc') = currentDimensions (accOf s' acc')"
      and f4: "length (cells (rowArrays s') (resultRows_ref acc')) = length (resultRows (accOf s' acc'))"
      by (simp_all add: accOf_def rowsOf_def)
    show ?thesis
      unfolding res
      by (simp add: Inr resultOf_def dataSetOf_def executeDataModel_def pureT fin f1 f2 f3 f4)
         (simp add: tableOf_def)
  qed
qed


text \<open>
  Claim C9. \<open>executeDataModel\<close> never mutates its inputs. Over the store, for every
  table collection, model and store, the store after the call extends the store before
  it: every row object, row array, column profile object, column array and dimension
  array that existed before the call has the contents it had (the call only allocates
  objects and writes to those it allocated). Hence every Table whose arrays and objects
  existed before the call stands for the same rows, row contents, columns, column
  profiles and dimensions after it. The function over the store is the function of the
  earlier sections: on allocated tables its result stands for the dataset that
  \<open>executeDataModel\<close> returns.
\<close>

theorem C9_inputs_unchanged:
  "storeExt s (snd (executeDataModelH ns ds tables model s))
   \<and> (allocated s t \<longrightarrow>
        tableOf (snd (executeDataModelH ns ds tables model s)) k t = tableOf s k t)
   \<and> (list_all (\<lambda>(k, t). allocated s t) tables \<longrightarrow>
        resultOf (executeDataModelH ns ds tables model s)
          = executeDataModel ns ds (absTables s tables) model)"
  using executeDataModelH_ext [of s ns ds tables model] tableOf_ext executeDataModelH_refines
  by blast

lemmas heap_eval = executeDataModelH_def joinStepH_def joinWithH_def getProp_def
  buildRightMapH_def mergeMatchH_def
  mergeNullsH_def pushRowH_def columnsOf_def alloc_def writeCell_def heapOf_def rowsOf_def
  colsAt_def dataSetOf_def resultOf_def tableOf_def allocated_def getv_def prefixed_def Let_def

lemmas ex_heap_defs = ex_store_def ex_OrdersRef_def ex_CustomersRef_def ex_tablesRef_def
  ex_Orders_def ex_Customers_def ex_model_def ex_join_def ex_profile_def no_date_def

theorem C9_inputs_unchanged_witness:
  "allocated ex_store ex_CustomersRef
   \<and> tableOf (snd (executeDataModelH show_nat no_date ex_tablesRef (ex_model LEFT) ex_store))
        ''Customers'' ex_CustomersRef
      = tableOf ex_store ''Customers'' ex_CustomersRef
   \<and> map_sum id rows
        (resultOf (executeDataModelH show_nat no_date ex_tablesRef (ex_model LEFT) ex_store)) =
      Inr [[(''id'', VNumber 1), (''cust'', VString ''A''), (''amt'', VNumber 100),
            (''Customers.cust'', VString ''A''), (''Customers.tier'', VString ''gold'')],
           [(''id'', VNumber 2), (''cust'', VString ''B''), (''amt'', VNumber 50),
            (''Customers.cust'', VNull), (''Customers.tier'', VNull)]]"
proof -
  have a: "allocated ex_store ex_CustomersRef"
    by (simp add: heap_eval ex_heap_defs)
  have r: "map_sum id rows
        (resultOf (executeDataModelH show_nat no_date ex_tablesRef (ex_model LEFT) ex_store)) =
      Inr [[(''id'', VNumber 1), (''cust'', VString ''A''), (''amt'', VNumber 100),
            (''Customers.cust'', VString ''A''), (''Customers.tier'', VString ''gold'')],
           [(''id'', VNumber 2), (''cust'', VString ''B''), (''amt'', VNumber 50),
            (''Customers.cust'', VNull), (''Customers.tier'', VNull)]]"
    by (simp add: heap_eval ex_heap_defs)
  from C9_inputs_unchanged [of ex_store show_nat no_date ex_tablesRef "ex_model LEFT"
         ex_CustomersRef "''Customers''"] a r
  show ?thesis by blast
qed


end
